theory Spec2Isabelle
  imports Complex_Main "HOL-Library.Sublist"
begin

section \<open>The file system seen by the monitor\<close>

text \<open>
  \<^verbatim>\<open>dev.py\<close> touches the outside world through \<^verbatim>\<open>open\<close>, \<^verbatim>\<open>pathlib.Path\<close>
  (\<^verbatim>\<open>exists\<close>, \<^verbatim>\<open>is_file\<close>, \<^verbatim>\<open>mkdir\<close>) and \<^verbatim>\<open>shutil.copy2\<close>.
  A path is the list of its components below the root; the file system maps a path to
  the node stored there. A regular file carries its bytes, its metadata (what
  \<^verbatim>\<open>copystat\<close> transfers) and a flag telling that reading it fails with an I/O error
  (\<^verbatim>\<open>EIO\<close>); a directory carries its write permission.
\<close>

type_synonym path = "string list"
type_synonym bytes = "char list"

record fmeta =
  mtime :: real
  readable :: bool
  writable :: bool

datatype node = File bytes fmeta bool | Dir bool

type_synonym filesystem = "path \<Rightarrow> node option"

datatype exn =
    FileNotFoundError
  | NotADirectoryError
  | IsADirectoryError
  | PermissionError
  | FileExistsError
  | OSError_EIO
  | SameFileError

text \<open>
  Path resolution walks the components from the root: a missing component is
  \<^verbatim>\<open>ENOENT\<close>, a regular file in the middle of the path is \<^verbatim>\<open>ENOTDIR\<close>.
\<close>

fun lookup_from :: "filesystem \<Rightarrow> path \<Rightarrow> string list \<Rightarrow> exn + node" where
  "lookup_from fs cur [] =
     (case fs cur of None \<Rightarrow> Inl FileNotFoundError | Some n \<Rightarrow> Inr n)"
| "lookup_from fs cur (c # cs) =
     (case fs cur of
        None \<Rightarrow> Inl FileNotFoundError
      | Some (Dir w) \<Rightarrow> lookup_from fs (cur @ [c]) cs
      | Some (File b md bad) \<Rightarrow> Inl NotADirectoryError)"

definition os_stat :: "filesystem \<Rightarrow> path \<Rightarrow> exn + node" where
  "os_stat fs p = lookup_from fs [] p"

text \<open>\<^verbatim>\<open>Path.exists\<close>, \<^verbatim>\<open>Path.is_file\<close>, \<^verbatim>\<open>Path.is_dir\<close>: a failed \<^verbatim>\<open>stat\<close> is False.\<close>

definition path_exists :: "filesystem \<Rightarrow> path \<Rightarrow> bool" where
  "path_exists fs p = (case os_stat fs p of Inl e \<Rightarrow> False | Inr n \<Rightarrow> True)"

definition is_file :: "filesystem \<Rightarrow> path \<Rightarrow> bool" where
  "is_file fs p = (case os_stat fs p of Inr (File b md bad) \<Rightarrow> True | _ \<Rightarrow> False)"

definition is_dir :: "filesystem \<Rightarrow> path \<Rightarrow> bool" where
  "is_dir fs p = (case os_stat fs p of Inr (Dir w) \<Rightarrow> True | _ \<Rightarrow> False)"

text \<open>
  \<^verbatim>\<open>open(path, 'rb')\<close> gives a handle on the bytes still to be read, or raises.
  The handle remembers whether the medium is faulty.
\<close>

definition open_rb :: "filesystem \<Rightarrow> path \<Rightarrow> exn + (bytes \<times> bool)" where
  "open_rb fs p =
     (case os_stat fs p of
        Inl e \<Rightarrow> Inl e
      | Inr (Dir w) \<Rightarrow> Inl IsADirectoryError
      | Inr (File b md bad) \<Rightarrow>
          if readable md then Inr (b, bad) else Inl PermissionError)"

section \<open>The hasher\<close>

text \<open>
  \<^verbatim>\<open>calculate_file_hash\<close> feeds \<^verbatim>\<open>f.read(4096)\<close> chunks to a \<^verbatim>\<open>hashlib.sha256\<close>
  object until the read returns \<^verbatim>\<open>b''\<close>. The hash object is modelled by the bytes
  it has been fed; \<^verbatim>\<open>hexdigest\<close> applies the digest function \<open>H\<close> (SHA-256 in hex, a
  library function outside the repository) to them.
\<close>

definition chunk_size :: nat where
  "chunk_size = 4096"

function feed_chunks :: "bytes \<Rightarrow> bytes \<Rightarrow> bytes" where
  "feed_chunks rest hasher =
     (let chunk = take chunk_size rest in
      if chunk = [] then hasher
      else feed_chunks (drop chunk_size rest) (hasher @ chunk))"
  by pat_completeness auto
termination
  by (relation "measure (\<lambda>(rest, hasher). length rest)") (auto simp: chunk_size_def)

declare feed_chunks.simps [simp del]

text \<open>The chunks the loop sees, in order (for stating the chunk bound).\<close>

function chunks_read :: "bytes \<Rightarrow> bytes list" where
  "chunks_read rest =
     (let chunk = take chunk_size rest in
      if chunk = [] then []
      else chunk # chunks_read (drop chunk_size rest))"
  by pat_completeness auto
termination
  by (relation "measure length") (auto simp: chunk_size_def)

declare chunks_read.simps [simp del]

text \<open>The body of the \<^verbatim>\<open>try\<close> block: every failure is an exception value.\<close>

definition file_digest :: "(bytes \<Rightarrow> string) \<Rightarrow> filesystem \<Rightarrow> path \<Rightarrow> exn + string" where
  "file_digest H fs p =
     (case open_rb fs p of
        Inl e \<Rightarrow> Inl e
      | Inr (b, bad) \<Rightarrow>
          if bad then Inl OSError_EIO else Inr (H (feed_chunks b [])))"

text \<open>\<^verbatim>\<open>except Exception\<close>: log and return \<^verbatim>\<open>None\<close>.\<close>

definition calculate_file_hash :: "(bytes \<Rightarrow> string) \<Rightarrow> filesystem \<Rightarrow> path \<Rightarrow> string option" where
  "calculate_file_hash H fs p =
     (case file_digest H fs p of Inl e \<Rightarrow> None | Inr h \<Rightarrow> Some h)"

section \<open>Creating directories and copying\<close>

text \<open>
  A new entry at \<open>p\<close> starts with nothing below it. (The map may hold entries that
  no path resolution reaches; they are not part of the file system and must not show
  up under a directory created later.)
\<close>

definition place :: "filesystem \<Rightarrow> path \<Rightarrow> node \<Rightarrow> filesystem" where
  "place fs p n = (\<lambda>q. if q = p then Some n else if strict_prefix p q then None else fs q)"

text \<open>\<^verbatim>\<open>os.mkdir\<close>: one directory, whose parent must be a writable directory.\<close>

definition os_mkdir :: "filesystem \<Rightarrow> path \<Rightarrow> exn + filesystem" where
  "os_mkdir fs p =
     (case os_stat fs p of
        Inr n \<Rightarrow> Inl FileExistsError
      | Inl e \<Rightarrow>
          (case os_stat fs (butlast p) of
             Inl e' \<Rightarrow> Inl e'
           | Inr (File b md bad) \<Rightarrow> Inl NotADirectoryError
           | Inr (Dir w) \<Rightarrow>
               if w then Inr (place fs p (Dir True)) else Inl PermissionError))"

text \<open>
  \<^verbatim>\<open>Path.mkdir(mode, parents, exist_ok)\<close> as pathlib writes it: try \<^verbatim>\<open>os.mkdir\<close>;
  on \<^verbatim>\<open>FileNotFoundError\<close> create the parent with \<^verbatim>\<open>parents=True, exist_ok=True\<close>
  and retry with \<^verbatim>\<open>parents=False\<close>; on any other \<^verbatim>\<open>OSError\<close> accept an
  existing directory when \<^verbatim>\<open>exist_ok\<close>. The parent of the root is the root.
  The result is the exception raised (if any) and the file system left behind.
\<close>

function mkdir :: "bool \<Rightarrow> bool \<Rightarrow> filesystem \<Rightarrow> path \<Rightarrow> exn option \<times> filesystem" where
  "mkdir parents exist_ok fs p =
     (case os_mkdir fs p of
        Inr fs' \<Rightarrow> (None, fs')
      | Inl e \<Rightarrow>
          if e = FileNotFoundError then
            (if \<not> parents \<or> p = [] then (Some e, fs)
             else (case mkdir True True fs (butlast p) of
                     (Some e', fs1) \<Rightarrow> (Some e', fs1)
                   | (None, fs1) \<Rightarrow> mkdir False exist_ok fs1 p))
          else if \<not> exist_ok \<or> \<not> is_dir fs p then (Some e, fs)
          else (None, fs))"
  by pat_completeness auto
termination
  by (relation "measure (\<lambda>(parents, exist_ok, fs, p). 2 * length p + (if parents then 1 else 0))")
     (auto simp: length_greater_0_conv [symmetric] simp del: length_greater_0_conv)

declare mkdir.simps [simp del]

text \<open>
  \<^verbatim>\<open>open(dst, 'wb')\<close> truncates an existing writable file or creates an empty one in
  a writable directory; \<open>t\<close> is the time of the call. The truncated file holds new
  content, so an earlier read fault is gone.
\<close>

definition open_wb :: "real \<Rightarrow> filesystem \<Rightarrow> path \<Rightarrow> exn + filesystem" where
  "open_wb t fs p =
     (case os_stat fs p of
        Inr (Dir w) \<Rightarrow> Inl IsADirectoryError
      | Inr (File b md bad) \<Rightarrow>
          if writable md then Inr (place fs p (File [] (md\<lparr>mtime := t\<rparr>) False))
          else Inl PermissionError
      | Inl e \<Rightarrow>
          (case os_stat fs (butlast p) of
             Inr (Dir w) \<Rightarrow>
               if w then Inr (place fs p (File [] \<lparr>mtime = t, readable = True, writable = True\<rparr> False))
               else Inl PermissionError
           | _ \<Rightarrow> Inl e))"

definition write_all :: "filesystem \<Rightarrow> path \<Rightarrow> bytes \<Rightarrow> filesystem" where
  "write_all fs p b =
     (case fs p of
        Some (File b0 md bad) \<Rightarrow> fs(p \<mapsto> File b md bad)
      | _ \<Rightarrow> fs)"

text \<open>
  \<^verbatim>\<open>shutil.copyfile\<close>: refuse to copy a file onto itself, open the source, open the
  destination for writing, copy the bytes. A failure leaves what was done before it:
  the result is the exception (if any) together with the file system.
\<close>

definition copyfile :: "real \<Rightarrow> filesystem \<Rightarrow> path \<Rightarrow> path \<Rightarrow> exn option \<times> filesystem" where
  "copyfile t fs src dst =
     (if src = dst \<and> path_exists fs src then (Some SameFileError, fs)
      else (case open_rb fs src of
              Inl e \<Rightarrow> (Some e, fs)
            | Inr (b, bad) \<Rightarrow>
                (case open_wb t fs dst of
                   Inl e \<Rightarrow> (Some e, fs)
                 | Inr fs1 \<Rightarrow>
                     if bad then (Some OSError_EIO, fs1)
                     else (None, write_all fs1 dst b))))"

text \<open>\<^verbatim>\<open>shutil.copystat\<close>: the destination takes the source's times and mode bits.\<close>

definition copystat :: "filesystem \<Rightarrow> path \<Rightarrow> path \<Rightarrow> filesystem" where
  "copystat fs src dst =
     (case (os_stat fs src, fs dst) of
        (Inr (File b md bad), Some (File b' md' bad')) \<Rightarrow> fs(dst \<mapsto> File b' md bad')
      | _ \<Rightarrow> fs)"

text \<open>
  \<^verbatim>\<open>shutil.copy2\<close>: when the destination is a directory the file goes \<^emph>\<open>into\<close> it,
  under the source's base name.
\<close>

definition basename :: "path \<Rightarrow> path" where
  "basename p = (if p = [] then [] else [last p])"

definition copy2 :: "real \<Rightarrow> filesystem \<Rightarrow> path \<Rightarrow> path \<Rightarrow> exn option \<times> filesystem" where
  "copy2 t fs src dst =
     (let dst' = (if is_dir fs dst then dst @ basename src else dst) in
      case copyfile t fs src dst' of
        (Some e, fs1) \<Rightarrow> (Some e, fs1)
      | (None, fs1) \<Rightarrow> (None, copystat fs1 src dst'))"

section \<open>The monitor's state\<close>

text \<open>
  \<^verbatim>\<open>FilePair\<close> is the dataclass of \<^verbatim>\<open>dev.py\<close>; \<^verbatim>\<open>status\<close> is a Python string.
  Timestamps (\<^verbatim>\<open>datetime.now()\<close>, \<^verbatim>\<open>time.time()\<close>) are seconds on one clock.
\<close>

record FilePair =
  source :: path
  target :: path
  last_hash :: "string option"
  last_sync :: "real option"
  status :: string
  error_count :: int

definition new_FilePair :: "path \<Rightarrow> path \<Rightarrow> FilePair" where
  "new_FilePair src tgt =
     \<lparr>source = src, target = tgt, last_hash = None, last_sync = None,
      status = ''pending'', error_count = 0\<rparr>"

text \<open>The \<^verbatim>\<open>self.stats\<close> dictionary, one field per key.\<close>

record run_stats =
  st_sync_count :: int
  st_error_count :: int
  st_start_time :: "real option"
  st_last_sync :: "real option"
  st_total_files :: int
  st_synced_files :: int
  st_uptime :: real

text \<open>
  \<^verbatim>\<open>SyncMonitor\<close>. \<open>notifier\<close> tells whether \<^verbatim>\<open>self.notifier\<close> is a notifier object
  (rather than \<^verbatim>\<open>None\<close>), \<open>live\<close> and \<open>layout\<close> likewise for \<^verbatim>\<open>self.live\<close> and
  \<^verbatim>\<open>self.layout\<close>; \<open>rich_available\<close> is the module's \<^verbatim>\<open>RICH_AVAILABLE\<close>.
\<close>

record monitor =
  file_pairs :: "FilePair list"
  check_interval :: real
  enable_notifications :: bool
  running :: bool
  last_update :: real
  notifier :: bool
  stats :: run_stats
  live :: bool
  layout :: bool
  rich_available :: bool

text \<open>
  What leaves the engine, in order: log records, console lines, dashboard refreshes
  (with the status column they show) and desktop notifications (type and title).
  Formatted arguments of the messages are left out.
\<close>

datatype level = INFO | WARNING | EXCEPTION

datatype event =
    Log level string
  | Print string
  | Display "string list"
  | Notify string string

record world =
  fsys :: filesystem
  clock :: real
  events :: "event list"

type_synonym state = "world \<times> monitor"

definition emit :: "event \<Rightarrow> world \<Rightarrow> world" where
  "emit e w = w\<lparr>events := events w @ [e]\<rparr>"

definition update_pair :: "nat \<Rightarrow> (FilePair \<Rightarrow> FilePair) \<Rightarrow> monitor \<Rightarrow> monitor" where
  "update_pair i f m = m\<lparr>file_pairs := (file_pairs m)[i := f (file_pairs m ! i)]\<rparr>"

section \<open>Dashboard and notifications\<close>

text \<open>
  \<^verbatim>\<open>_create_stats_panel\<close> stores two derived values while it renders: the uptime and
  the number of pairs whose status is \<^verbatim>\<open>"synced"\<close>.
\<close>

definition create_stats_panel :: "world \<Rightarrow> monitor \<Rightarrow> monitor" where
  "create_stats_panel w m =
     m\<lparr>stats := (stats m)
        \<lparr>st_uptime := (case st_start_time (stats m) of
                         Some t0 \<Rightarrow> clock w - t0
                       | None \<Rightarrow> st_uptime (stats m)),
         st_synced_files := int (length (filter (\<lambda>p. status p = ''synced'') (file_pairs m)))\<rparr>\<rparr>"

definition display_status_live :: "state \<Rightarrow> state" where
  "display_status_live s =
     (case s of (w, m) \<Rightarrow>
        if \<not> rich_available m \<or> \<not> live m then (w, m)
        else if \<not> layout m then (emit (Display []) w, m)
        else (let m' = create_stats_panel w m
              in (emit (Display (map status (file_pairs m'))) w, m')))"

text \<open>
  \<^verbatim>\<open>_send_notification\<close>: only with a notifier and notifications enabled; a failure
  of the delivery is swallowed there, so the call is all the engine sees.
\<close>

definition send_notification :: "string \<Rightarrow> string \<Rightarrow> state \<Rightarrow> state" where
  "send_notification title note_type s =
     (case s of (w, m) \<Rightarrow>
        if notifier m \<and> enable_notifications m then (emit (Notify note_type title) w, m)
        else (w, m))"

definition console_print :: "string \<Rightarrow> state \<Rightarrow> state" where
  "console_print msg s =
     (case s of (w, m) \<Rightarrow> if rich_available m then (emit (Print msg) w, m) else (w, m))"

definition logger :: "level \<Rightarrow> string \<Rightarrow> state \<Rightarrow> state" where
  "logger lv msg s = (case s of (w, m) \<Rightarrow> (emit (Log lv msg) w, m))"

text \<open>
  What one call of each of these adds to the event list, and what a dashboard refresh
  leaves in the monitor: the three functions above written as updates of the state.
\<close>

definition display_events :: "monitor \<Rightarrow> event list" where
  "display_events m =
     (if \<not> rich_available m \<or> \<not> live m then []
      else if \<not> layout m then [Display []]
      else [Display (map status (file_pairs m))])"

definition refreshed :: "world \<Rightarrow> monitor \<Rightarrow> monitor" where
  "refreshed w m =
     (if rich_available m \<and> live m \<and> layout m then create_stats_panel w m else m)"

definition print_events :: "monitor \<Rightarrow> string \<Rightarrow> event list" where
  "print_events m msg = (if rich_available m then [Print msg] else [])"

definition notify_events :: "monitor \<Rightarrow> string \<Rightarrow> string \<Rightarrow> event list" where
  "notify_events m note_type title =
     (if notifier m \<and> enable_notifications m then [Notify note_type title] else [])"

text \<open>\<^verbatim>\<open>calculate_file_hash\<close> as the engine calls it: the failure is logged.\<close>

definition hash_logged :: "(bytes \<Rightarrow> string) \<Rightarrow> path \<Rightarrow> state \<Rightarrow> string option \<times> state" where
  "hash_logged H p s =
     (case calculate_file_hash H (fsys (fst s)) p of
        None \<Rightarrow> (None, logger EXCEPTION ''Failed to hash file'' s)
      | Some h \<Rightarrow> (Some h, s))"

section \<open>The synchronization engine\<close>

text \<open>
  \<^verbatim>\<open>sync_file\<close> receives a reference to one element of \<^verbatim>\<open>self.file_pairs\<close>; the
  model names it by its index \<open>i\<close>. \<open>sync_try\<close> is the body of the \<^verbatim>\<open>try\<close> block:
  it either returns (\<open>Inr\<close>) or raises (\<open>Inl\<close>), and in both cases hands over the
  state reached so far.
\<close>

definition set_status :: "nat \<Rightarrow> string \<Rightarrow> state \<Rightarrow> state" where
  "set_status i v s = (fst s, update_pair i (\<lambda>p. p\<lparr>status := v\<rparr>) (snd s))"

definition bump_pair_errors :: "nat \<Rightarrow> state \<Rightarrow> state" where
  "bump_pair_errors i s =
     (fst s, update_pair i (\<lambda>p. p\<lparr>error_count := error_count p + 1\<rparr>) (snd s))"

definition set_fsys :: "filesystem \<Rightarrow> state \<Rightarrow> state" where
  "set_fsys f s = ((fst s)\<lparr>fsys := f\<rparr>, snd s)"

definition record_sync :: "nat \<Rightarrow> string \<Rightarrow> state \<Rightarrow> state" where
  "record_sync i source_hash s =
     (case s of (w, m) \<Rightarrow>
        (let m1 = update_pair i
                    (\<lambda>p. p\<lparr>last_hash := Some source_hash, last_sync := Some (clock w),
                           status := ''synced''\<rparr>) m;
             m2 = m1\<lparr>stats := (stats m1)\<lparr>st_sync_count := st_sync_count (stats m1) + 1,
                                         st_last_sync := Some (clock w)\<rparr>,
                     last_update := clock w\<rparr>
         in (w, m2)))"

definition sync_try :: "(bytes \<Rightarrow> string) \<Rightarrow> nat \<Rightarrow> state \<Rightarrow> (exn + bool) \<times> state" where
  "sync_try H i s0 =
     (let s1 = display_status_live (set_status i ''syncing'' s0);
          src = source (file_pairs (snd s1) ! i);
          tgt = target (file_pairs (snd s1) ! i)
      in case hash_logged H src s1 of
           (None, s2) \<Rightarrow>
             (Inr False, bump_pair_errors i (set_status i ''error'' s2))
         | (Some source_hash, s2) \<Rightarrow>
             (case (if path_exists (fsys (fst s2)) tgt then hash_logged H tgt s2
                    else (None, s2)) of
                (target_hash, s3) \<Rightarrow>
                  if Some source_hash = target_hash
                  then (Inr True, display_status_live (set_status i ''synced'' s3))
                  else (let s4 = logger INFO ''Syncing'' s3 in
                        case mkdir True True (fsys (fst s4)) (butlast tgt) of
                          (Some e, f5) \<Rightarrow> (Inl e, set_fsys f5 s4)
                        | (None, f5) \<Rightarrow>
                            (case copy2 (clock (fst s4)) f5 src tgt of
                               (Some e, f6) \<Rightarrow> (Inl e, set_fsys f6 s4)
                             | (None, f6) \<Rightarrow>
                                 (Inr True,
                                  send_notification ''File Synchronized'' ''file_changed''
                                    (console_print ''synchronized successfully''
                                      (logger INFO ''synchronized successfully''
                                        (record_sync i source_hash (set_fsys f6 s4)))))))))"

text \<open>The \<^verbatim>\<open>except Exception\<close> handler.\<close>

definition sync_except :: "nat \<Rightarrow> state \<Rightarrow> state" where
  "sync_except i s =
     (let s1 = logger EXCEPTION ''Failed to sync'' s;
          s2 = bump_pair_errors i (set_status i ''error'' s1);
          s3 = (fst s2, (snd s2)\<lparr>stats := (stats (snd s2))
                   \<lparr>st_error_count := st_error_count (stats (snd s2)) + 1\<rparr>\<rparr>);
          s4 = console_print ''Failed to sync'' s3
      in send_notification ''Sync Error'' ''sync_error'' s4)"

text \<open>\<^verbatim>\<open>try\<close> / \<^verbatim>\<open>except\<close> / \<^verbatim>\<open>finally\<close>: the dashboard is refreshed on every way out.\<close>

definition sync_file :: "(bytes \<Rightarrow> string) \<Rightarrow> nat \<Rightarrow> state \<Rightarrow> bool \<times> state" where
  "sync_file H i s0 =
     (case sync_try H i s0 of
        (Inr b, s) \<Rightarrow> (b, display_status_live s)
      | (Inl e, s) \<Rightarrow> (False, display_status_live (sync_except i s)))"

section \<open>Outcomes of one synchronization attempt\<close>

text \<open>
  Names for what \<^verbatim>\<open>sync_file\<close> leaves behind on each of its ways out: the update of
  the pair, the monitor after the closing dashboard refresh, and the events emitted.
\<close>

definition set_pair_status :: "string \<Rightarrow> FilePair \<Rightarrow> FilePair" where
  "set_pair_status v = (\<lambda>p. p\<lparr>status := v\<rparr>)"

definition err_pair :: "FilePair \<Rightarrow> FilePair" where
  "err_pair = (\<lambda>p. p\<lparr>status := ''error'', error_count := error_count p + 1\<rparr>)"

definition rec_pair :: "string \<Rightarrow> real \<Rightarrow> FilePair \<Rightarrow> FilePair" where
  "rec_pair h t = (\<lambda>p. p\<lparr>last_hash := Some h, last_sync := Some t, status := ''synced''\<rparr>)"

definition failed_monitor :: "world \<Rightarrow> nat \<Rightarrow> monitor \<Rightarrow> monitor" where
  "failed_monitor w i m =
     refreshed w ((update_pair i err_pair m)
        \<lparr>stats := (stats m)\<lparr>st_error_count := st_error_count (stats m) + 1\<rparr>\<rparr>)"

definition copied_monitor :: "world \<Rightarrow> nat \<Rightarrow> string \<Rightarrow> monitor \<Rightarrow> monitor" where
  "copied_monitor w i h m =
     refreshed w ((update_pair i (rec_pair h (clock w)) m)
        \<lparr>stats := (stats m)\<lparr>st_sync_count := st_sync_count (stats m) + 1,
                            st_last_sync := Some (clock w)\<rparr>,
         last_update := clock w\<rparr>)"

definition attempt_events :: "(bytes \<Rightarrow> string) \<Rightarrow> world \<Rightarrow> nat \<Rightarrow> monitor \<Rightarrow> event list" where
  "attempt_events H w i m =
     display_events (update_pair i (set_pair_status ''syncing'') m)
     @ (if path_exists (fsys w) (target (file_pairs m ! i)) \<and>
           calculate_file_hash H (fsys w) (target (file_pairs m ! i)) = None
        then [Log EXCEPTION ''Failed to hash file''] else [])
     @ [Log INFO ''Syncing'']"

definition failure_events :: "monitor \<Rightarrow> nat \<Rightarrow> event list" where
  "failure_events m i =
     [Log EXCEPTION ''Failed to sync''] @ print_events m ''Failed to sync''
     @ notify_events m ''sync_error'' ''Sync Error''
     @ display_events (update_pair i err_pair m)"

definition success_events :: "monitor \<Rightarrow> nat \<Rightarrow> event list" where
  "success_events m i =
     [Log INFO ''synchronized successfully''] @ print_events m ''synchronized successfully''
     @ notify_events m ''file_changed'' ''File Synchronized''
     @ display_events (update_pair i (set_pair_status ''synced'') m)"

definition hash_fail_events :: "monitor \<Rightarrow> nat \<Rightarrow> event list" where
  "hash_fail_events m i =
     display_events (update_pair i (set_pair_status ''syncing'') m)
     @ [Log EXCEPTION ''Failed to hash file'']
     @ display_events (update_pair i err_pair m)"

definition noop_events :: "monitor \<Rightarrow> nat \<Rightarrow> event list" where
  "noop_events m i =
     display_events (update_pair i (set_pair_status ''syncing'') m)
     @ display_events (update_pair i (set_pair_status ''synced'') m)
     @ display_events (update_pair i (set_pair_status ''synced'') m)"

text \<open>The notifications among a list of events.\<close>

fun is_notification :: "event \<Rightarrow> bool" where
  "is_notification (Notify note_type title) = True"
| "is_notification e = False"

definition notifications :: "event list \<Rightarrow> event list" where
  "notifications es = filter is_notification es"


section \<open>Preflight validation\<close>

definition validate :: "filesystem \<Rightarrow> FilePair \<Rightarrow> bool \<times> string" where
  "validate fs p =
     (if \<not> path_exists fs (source p) then (False, ''Source file does not exist'')
      else if \<not> is_file fs (source p) then (False, ''Source is not a file'')
      else (True, []))"

text \<open>The loop of \<^verbatim>\<open>validate_all_pairs\<close>: every invalid pair is logged, none stops the loop.\<close>

fun validate_loop :: "FilePair list \<Rightarrow> bool \<Rightarrow> state \<Rightarrow> bool \<times> state" where
  "validate_loop [] all_valid s = (all_valid, s)"
| "validate_loop (p # ps) all_valid s =
     (case validate (fsys (fst s)) p of
        (is_valid, message) \<Rightarrow>
          if \<not> is_valid then validate_loop ps False (logger EXCEPTION message s)
          else validate_loop ps all_valid s)"

definition validate_all_pairs :: "state \<Rightarrow> bool \<times> state" where
  "validate_all_pairs s = validate_loop (file_pairs (snd s)) True s"

section \<open>The scheduler\<close>

text \<open>
  The monitor gives up control only in \<^verbatim>\<open>time.sleep\<close>. What the rest of the system
  does meanwhile (edits to the files, more time passing) is the parameter \<open>env\<close>.
\<close>

definition time_sleep :: "(world \<Rightarrow> world) \<Rightarrow> real \<Rightarrow> state \<Rightarrow> state" where
  "time_sleep env d s = (env ((fst s)\<lparr>clock := clock (fst s) + d\<rparr>), snd s)"

text \<open>\<^verbatim>\<open>sleep_time = max(0.1, self.check_interval - elapsed)\<close>\<close>

definition sleep_time :: "real \<Rightarrow> real \<Rightarrow> real" where
  "sleep_time interval elapsed = max (1 / 10) (interval - elapsed)"

text \<open>\<^verbatim>\<open>for pair in self.file_pairs: self.sync_file(pair)\<close>, by index.\<close>

definition sync_all :: "(bytes \<Rightarrow> string) \<Rightarrow> (state \<Rightarrow> state) \<Rightarrow> state \<Rightarrow> state" where
  "sync_all H pause s =
     fold (\<lambda>i s'. pause (snd (sync_file H i s'))) [0..<length (file_pairs (snd s))] s"

text \<open>One pass of the \<^verbatim>\<open>while self.running\<close> loop; \<open>tick_work\<close> is the part that is timed.\<close>

definition tick_work :: "(world \<Rightarrow> world) \<Rightarrow> (bytes \<Rightarrow> string) \<Rightarrow> state \<Rightarrow> state" where
  "tick_work env H s = display_status_live (sync_all H (time_sleep env (1 / 10)) s)"

definition monitor_tick :: "(world \<Rightarrow> world) \<Rightarrow> (bytes \<Rightarrow> string) \<Rightarrow> state \<Rightarrow> state" where
  "monitor_tick env H s =
     (let start_time = clock (fst s);
          s1 = tick_work env H s;
          elapsed = clock (fst s1) - start_time
      in time_sleep env (sleep_time (check_interval (snd s1)) elapsed) s1)"

definition stop :: "state \<Rightarrow> state" where
  "stop s =
     (let s1 = logger INFO ''Monitor stopped'' (fst s, (snd s)\<lparr>running := False\<rparr>)
      in case st_start_time (stats (snd s1)) of
           None \<Rightarrow> s1
         | Some t0 \<Rightarrow>
             (let s2 = logger INFO ''Total runtime'' s1
              in (emit (Print ''Summary'') (fst s2), snd s2)))"




section \<open>Example configurations\<close>

text \<open>
  A small file system and a stand-in for the digest function, used to run the
  definitions on concrete inputs.
\<close>

definition demo_digest :: "bytes \<Rightarrow> string" where
  "demo_digest b = b"

definition demo_meta :: fmeta where
  "demo_meta = \<lparr>mtime = 0, readable = True, writable = True\<rparr>"

definition demo_fs :: filesystem where
  "demo_fs =
     [[] \<mapsto> Dir True,
      [''src''] \<mapsto> Dir True,
      [''src'', ''a.txt''] \<mapsto> File ''v1'' demo_meta False,
      [''src'', ''same.txt''] \<mapsto> File ''v0'' demo_meta False,
      [''src'', ''bad.txt''] \<mapsto> File ''v1'' demo_meta True,
      [''out''] \<mapsto> Dir True,
      [''out'', ''same.txt''] \<mapsto> File ''v0'' demo_meta False,
      [''out'', ''dir''] \<mapsto> Dir True]"

text \<open>
  \<^verbatim>\<open>SyncMonitor.__init__\<close> at time \<open>now\<close>; \<open>growl\<close> tells whether a notifier could be
  set up, \<open>rich\<close> is \<^verbatim>\<open>RICH_AVAILABLE\<close>.
\<close>

definition init_monitor :: "real \<Rightarrow> FilePair list \<Rightarrow> real \<Rightarrow> bool \<Rightarrow> bool \<Rightarrow> bool \<Rightarrow> monitor" where
  "init_monitor now pairs interval notify growl rich =
     \<lparr>file_pairs = pairs, check_interval = interval, enable_notifications = notify,
      running = False, last_update = now, notifier = (notify \<and> growl),
      stats = \<lparr>st_sync_count = 0, st_error_count = 0, st_start_time = None,
               st_last_sync = None, st_total_files = int (length pairs),
               st_synced_files = 0, st_uptime = 0\<rparr>,
      live = False, layout = rich, rich_available = rich\<rparr>"

text \<open>
  A plain monitor (no rich, notifications on) as it is during the initial pass, and a
  monitor with the live dashboard attached as it is inside the loop; both started at
  time 0 and observed at time 5.
\<close>

definition plain_monitor :: "FilePair list \<Rightarrow> monitor" where
  "plain_monitor pairs =
     (init_monitor 0 pairs 1 True True False)
       \<lparr>running := True,
        stats := (stats (init_monitor 0 pairs 1 True True False))\<lparr>st_start_time := Some 0\<rparr>\<rparr>"

definition live_monitor :: "FilePair list \<Rightarrow> monitor" where
  "live_monitor pairs =
     (init_monitor 0 pairs 1 True True True)
       \<lparr>running := True, live := True,
        stats := (stats (init_monitor 0 pairs 1 True True True))\<lparr>st_start_time := Some 0\<rparr>\<rparr>"

definition demo_world :: world where
  "demo_world = \<lparr>fsys = demo_fs, clock = 5, events = []\<rparr>"

text \<open>Pairs over the example file system, as \<^verbatim>\<open>FilePair(source, target)\<close> creates them.\<close>

definition pair_missing :: FilePair where
  "pair_missing = new_FilePair [''src'', ''missing.txt''] [''out'', ''missing.txt'']"

definition pair_same :: FilePair where
  "pair_same = new_FilePair [''src'', ''same.txt''] [''out'', ''same.txt'']"

definition pair_new :: FilePair where
  "pair_new = new_FilePair [''src'', ''a.txt''] [''out'', ''new'', ''a.txt'']"

definition pair_into_dir :: FilePair where
  "pair_into_dir = new_FilePair [''src'', ''a.txt''] [''out'', ''dir'']"

definition pair_blocked :: FilePair where
  "pair_blocked = new_FilePair [''src'', ''a.txt''] [''src'', ''same.txt'', ''a.txt'']"

text \<open>A pair copied once before (at time 3) whose target has since been removed.\<close>

definition pair_resync :: FilePair where
  "pair_resync = pair_new\<lparr>last_hash := Some ''v0'', last_sync := Some 3, status := ''synced''\<rparr>"

section \<open>Facts about the hasher\<close>

lemma feed_chunks_eq: "feed_chunks rest hasher = hasher @ rest"
proof (induction rest hasher rule: feed_chunks.induct)
  case (1 rest hasher)
  show ?case
  proof (cases "take chunk_size rest = []")
    case True
    then have "rest = []" by (auto simp: chunk_size_def)
    then show ?thesis by (simp add: feed_chunks.simps [of "[]"])
  next
    case False
    then show ?thesis using 1 [OF refl False]
      by (simp add: feed_chunks.simps [of rest] Let_def)
  qed
qed

lemma concat_chunks_read: "concat (chunks_read b) = b"
proof (induction b rule: chunks_read.induct)
  case (1 rest)
  show ?case
  proof (cases "take chunk_size rest = []")
    case True
    then have "rest = []" by (auto simp: chunk_size_def)
    then show ?thesis by (simp add: chunks_read.simps [of "[]"])
  next
    case False
    then show ?thesis using 1 [OF refl False]
      by (simp add: chunks_read.simps [of rest] Let_def)
  qed
qed

lemma chunks_read_bound: "c \<in> set (chunks_read b) \<Longrightarrow> c \<noteq> [] \<and> length c \<le> 4096"
proof (induction b rule: chunks_read.induct)
  case (1 rest)
  show ?case
  proof (cases "take chunk_size rest = []")
    case True
    then show ?thesis using 1(2) by (simp add: chunks_read.simps [of rest])
  next
    case False
    then show ?thesis using 1(1) [OF refl False] 1(2)
      by (auto simp add: chunks_read.simps [of rest] Let_def chunk_size_def)
  qed
qed

lemma calculate_file_hash_Some_iff:
  "calculate_file_hash H fs p = Some h \<longleftrightarrow>
     (\<exists>b md. os_stat fs p = Inr (File b md False) \<and> readable md \<and> h = H b)"
  by (auto simp: calculate_file_hash_def file_digest_def open_rb_def feed_chunks_eq
           split: sum.splits node.splits if_splits)

lemma calculate_file_hash_None_iff:
  "calculate_file_hash H fs p = None \<longleftrightarrow>
     \<not> (\<exists>b md. os_stat fs p = Inr (File b md False) \<and> readable md)"
  by (auto simp: calculate_file_hash_def file_digest_def open_rb_def feed_chunks_eq
           split: sum.splits node.splits if_splits)

text \<open>
  C6 (as amended). For a readable regular file the hasher returns the digest of the
  file's whole content, which it reads in chunks of at most 4096 bytes; in every other
  case (missing path, directory, no read permission, I/O error) it returns the single
  value \<^verbatim>\<open>None\<close> and raises nothing.
\<close>

theorem hash_digest_or_None:
  "(case os_stat fs p of
      Inr (File b md bad) \<Rightarrow>
        if readable md \<and> \<not> bad
        then calculate_file_hash H fs p = Some (H b) \<and>
             feed_chunks b [] = concat (chunks_read b) \<and> concat (chunks_read b) = b \<and>
             (\<forall>c \<in> set (chunks_read b). c \<noteq> [] \<and> length c \<le> 4096)
        else calculate_file_hash H fs p = None
    | _ \<Rightarrow> calculate_file_hash H fs p = None)"
  by (auto simp: calculate_file_hash_def file_digest_def open_rb_def feed_chunks_eq
        concat_chunks_read dest: chunks_read_bound split: sum.splits node.splits)

theorem hash_digest_or_None_witness:
  "calculate_file_hash demo_digest demo_fs [''src'', ''a.txt''] = Some ''v1'' \<and>
   chunks_read ''v1'' = [''v1''] \<and> length ''v1'' \<le> 4096"
  using hash_digest_or_None [where fs = demo_fs and p = "[''src'', ''a.txt'']" and H = demo_digest]
  by (simp add: os_stat_def demo_fs_def demo_meta_def demo_digest_def chunks_read.simps
        chunk_size_def)

text \<open>
  C6 as stated fails: a missing file, a file whose read fails with an I/O error and a
  directory raise three different exceptions inside the hasher, and the caller gets
  the same \<^verbatim>\<open>None\<close> for all of them.
\<close>

theorem hash_errors_not_distinguished:
  "file_digest demo_digest demo_fs [''src'', ''missing.txt''] = Inl FileNotFoundError \<and>
   file_digest demo_digest demo_fs [''src'', ''bad.txt''] = Inl OSError_EIO \<and>
   file_digest demo_digest demo_fs [''src''] = Inl IsADirectoryError \<and>
   calculate_file_hash demo_digest demo_fs [''src'', ''missing.txt''] = None \<and>
   calculate_file_hash demo_digest demo_fs [''src'', ''bad.txt''] = None \<and>
   calculate_file_hash demo_digest demo_fs [''src''] = None"
  by (simp add: calculate_file_hash_def file_digest_def open_rb_def os_stat_def demo_fs_def
        demo_meta_def)

section \<open>Facts about the file system\<close>

lemma lookup_from_Inr_iff:
  "lookup_from fs cur rest = Inr n \<longleftrightarrow>
     fs (cur @ rest) = Some n \<and>
     (\<forall>r. prefix cur r \<and> strict_prefix r (cur @ rest) \<longrightarrow> (\<exists>w. fs r = Some (Dir w)))"
proof (induction rest arbitrary: cur)
  case Nil
  have "\<not> (prefix cur r \<and> strict_prefix r cur)" for r
    by (auto simp: strict_prefix_def)
  then show ?case by (auto split: option.splits)
next
  case (Cons c cs)
  have split: "(prefix cur r \<and> strict_prefix r (cur @ c # cs)) \<longleftrightarrow>
        (r = cur \<or> (prefix (cur @ [c]) r \<and> strict_prefix r ((cur @ [c]) @ cs)))" for r
  proof
    assume a: "prefix cur r \<and> strict_prefix r (cur @ c # cs)"
    then obtain r' where r: "r = cur @ r'" by (auto simp: prefix_def)
    with a have "strict_prefix r' (c # cs)" by (simp add: strict_prefix_def)
    then have "r' = [] \<or> (\<exists>r''. r' = c # r'' \<and> strict_prefix r'' cs)"
      by (cases r') auto
    then show "r = cur \<or> (prefix (cur @ [c]) r \<and> strict_prefix r ((cur @ [c]) @ cs))"
      using r by (auto simp: strict_prefix_def)
  next
    assume "r = cur \<or> (prefix (cur @ [c]) r \<and> strict_prefix r ((cur @ [c]) @ cs))"
    then show "prefix cur r \<and> strict_prefix r (cur @ c # cs)"
      by (auto simp: strict_prefix_def prefix_def)
  qed
  show ?case
  proof (cases "fs cur")
    case None
    then show ?thesis using split [of cur] by auto
  next
    case (Some nd)
    show ?thesis
    proof (cases nd)
      case (File b md bad)
      with Some show ?thesis using split [of cur] by auto
    next
      case (Dir w)
      with Some show ?thesis
        using Cons.IH [of "cur @ [c]"] by (simp add: split)
    qed
  qed
qed

lemma os_stat_Inr_iff:
  "os_stat fs p = Inr n \<longleftrightarrow>
     fs p = Some n \<and> (\<forall>r. strict_prefix r p \<longrightarrow> (\<exists>w. fs r = Some (Dir w)))"
  using lookup_from_Inr_iff [of fs "[]" p n] by (simp add: os_stat_def)


lemma strict_prefix_butlast_iff:
  assumes "p \<noteq> []"
  shows "strict_prefix r p \<longleftrightarrow> prefix r (butlast p)"
proof -
  from assms obtain b l where p: "p = b @ [l]" by (cases p rule: rev_cases) auto
  have "prefix r b \<Longrightarrow> r \<noteq> b @ [l]" by (auto simp: prefix_def)
  then show ?thesis by (auto simp: p strict_prefix_def)
qed

lemma os_stat_prefix:
  assumes "os_stat fs q = Inr x" and "prefix p q"
  shows "\<exists>y. os_stat fs p = Inr y"
proof (cases "p = q")
  case True
  with assms show ?thesis by simp
next
  case False
  with assms(2) have sp: "strict_prefix p q" by (simp add: strict_prefix_def)
  with assms(1) obtain w where "fs p = Some (Dir w)" by (auto simp: os_stat_Inr_iff)
  moreover have "\<exists>w. fs r = Some (Dir w)" if "strict_prefix r p" for r
    using that sp assms(1) by (auto simp: os_stat_Inr_iff dest: prefix_order.less_trans)
  ultimately show ?thesis by (auto simp: os_stat_Inr_iff)
qed

lemma os_stat_strict_prefix_dir:
  assumes "os_stat fs q = Inr x" and "strict_prefix p q"
  shows "\<exists>w. os_stat fs p = Inr (Dir w)"
proof -
  from assms obtain w where "fs p = Some (Dir w)" by (auto simp: os_stat_Inr_iff)
  moreover from assms obtain y where "os_stat fs p = Inr y"
    using os_stat_prefix [of fs q x p] by (auto simp: strict_prefix_def)
  ultimately show ?thesis by (auto simp: os_stat_Inr_iff)
qed

lemma parents_ok:
  assumes "os_stat fs (butlast p) = Inr (Dir w)" and "strict_prefix r p"
  shows "\<exists>w'. fs r = Some (Dir w')"
proof -
  from assms(2) have "p \<noteq> []" by auto
  with assms(2) have "prefix r (butlast p)" by (simp add: strict_prefix_butlast_iff)
  then show ?thesis
    using assms(1) by (cases "r = butlast p") (auto simp: os_stat_Inr_iff strict_prefix_def)
qed

text \<open>What is visible after placing a node whose parent is a directory.\<close>

lemma os_stat_place:
  assumes "\<forall>r. strict_prefix r p \<longrightarrow> (\<exists>w. fs r = Some (Dir w))"
  shows "os_stat (place fs p n) q = Inr x \<longleftrightarrow>
           (if q = p then x = n else \<not> strict_prefix p q \<and> os_stat fs q = Inr x)"
proof (cases "q = p")
  case True
  have "place fs p n r = fs r" if "strict_prefix r p" for r
    using that by (auto simp: place_def)
  with assms True show ?thesis by (auto simp: os_stat_Inr_iff) (auto simp: place_def)
next
  case False
  show ?thesis
  proof (cases "strict_prefix p q")
    case True
    then show ?thesis using False by (simp add: os_stat_Inr_iff place_def)
  next
    case np: False
    have "place fs p n r = fs r" if "strict_prefix r q" for r
    proof -
      have "r \<noteq> p" using that np by auto
      moreover have "\<not> strict_prefix p r"
        using that np by (auto dest: prefix_order.less_trans)
      ultimately show ?thesis by (simp add: place_def)
    qed
    moreover have "place fs p n q = fs q" using False np by (simp add: place_def)
    ultimately show ?thesis using False np by (simp add: os_stat_Inr_iff)
  qed
qed


lemma os_mkdir_Inr:
  assumes "os_mkdir fs p = Inr fs'"
  shows "(\<forall>x. os_stat fs p \<noteq> Inr x) \<and> (\<exists>w. os_stat fs (butlast p) = Inr (Dir w)) \<and>
         fs' = place fs p (Dir True)"
  using assms by (auto simp: os_mkdir_def split: sum.splits node.splits if_splits)

lemma os_mkdir_visible:
  assumes "os_mkdir fs p = Inr fs'"
  shows "os_stat fs' q = Inr x \<longleftrightarrow> (q = p \<and> x = Dir True) \<or> os_stat fs q = Inr x"
proof -
  from os_mkdir_Inr [OF assms] obtain w where
    absent: "\<forall>x. os_stat fs p \<noteq> Inr x" and
    parent: "os_stat fs (butlast p) = Inr (Dir w)" and
    fs': "fs' = place fs p (Dir True)" by blast
  have ok: "\<forall>r. strict_prefix r p \<longrightarrow> (\<exists>w. fs r = Some (Dir w))"
    using parents_ok [OF parent] by blast
  have "\<not> strict_prefix p q" if "os_stat fs q = Inr x"
    using os_stat_prefix [OF that, of p] absent by (auto simp: strict_prefix_def)
  then show ?thesis
    unfolding fs' os_stat_place [OF ok] using absent by auto
qed

lemma os_mkdir_nonroot: "os_mkdir fs p = Inr fs' \<Longrightarrow> p \<noteq> []"
  using os_mkdir_Inr [of fs p fs'] by auto

lemma mkdir_post:
  "mkdir parents exist_ok fs p = (r, fs') \<Longrightarrow>
     (\<forall>q x. os_stat fs q = Inr x \<longrightarrow> os_stat fs' q = Inr x) \<and>
     (\<forall>q x. os_stat fs' q = Inr x \<longrightarrow>
        os_stat fs q = Inr x \<or> (x = Dir True \<and> prefix q p \<and> q \<noteq> [])) \<and>
     (r = None \<longrightarrow> is_dir fs' p)"
proof (induction parents exist_ok fs p arbitrary: r fs' rule: mkdir.induct)
  case (1 parents exist_ok fs p)
  show ?case
  proof (cases "os_mkdir fs p")
    case (Inr f1)
    with "1.prems" have r: "r = None" "fs' = f1" by (simp_all add: mkdir.simps [of _ _ fs p])
    have "os_stat f1 p = Inr (Dir True)"
      using os_mkdir_visible [OF Inr, of p "Dir True"] by simp
    then have "is_dir f1 p" by (simp add: is_dir_def)
    with os_mkdir_visible [OF Inr] os_mkdir_nonroot [OF Inr] show ?thesis
      unfolding r by auto
  next
    case (Inl e)
    show ?thesis
    proof (cases "e = FileNotFoundError")
      case False
      with Inl "1.prems" show ?thesis
        by (auto simp: mkdir.simps [of _ _ fs p] split: if_splits)
    next
      case True
      show ?thesis
      proof (cases "\<not> parents \<or> p = []")
        case stop: True
        with Inl True "1.prems" show ?thesis
          by (auto simp: mkdir.simps [of _ _ fs p] split: if_splits)
      next
        case go: False
        obtain r1 f1 where rec: "mkdir True True fs (butlast p) = (r1, f1)"
          by (cases "mkdir True True fs (butlast p)")
        note ih1 = "1.IH"(1) [OF Inl True go rec]
        have mono: "prefix q (butlast p) \<Longrightarrow> prefix q p" for q
          by (metis prefix_order.order_trans prefixeq_butlast)
        show ?thesis
        proof (cases r1)
          case (Some e1)
          with Inl True go rec "1.prems" [unfolded mkdir.simps [of parents exist_ok fs p]]
          have "r = Some e1" "fs' = f1"
            by simp_all
          with ih1 mono show ?thesis by (auto; blast)
        next
          case None
          with Inl True go rec "1.prems" [unfolded mkdir.simps [of parents exist_ok fs p]]
          have second: "mkdir False exist_ok f1 p = (r, fs')"
            by simp
          note ih2 = "1.IH"(2) [OF Inl True go rec [symmetric] None second]
          from ih1 ih2 mono show ?thesis by (auto; blast)
        qed
      qed
    qed
  qed
qed


lemma place_upd: "(place fs p n)(p \<mapsto> n') = place fs p n'"
  by (auto simp: place_def fun_eq_iff)

lemma place_same [simp]: "place fs p n p = Some n"
  by (simp add: place_def)

lemma open_wb_Inr:
  assumes "open_wb t fs p = Inr fs1"
  shows "\<exists>md. fs1 = place fs p (File [] md False) \<and>
              (\<forall>r. strict_prefix r p \<longrightarrow> (\<exists>w. fs r = Some (Dir w)))"
proof (cases "os_stat fs p")
  case (Inr nd)
  with assms obtain b md bad where nd: "nd = File b md bad" "writable md"
    and fs1: "fs1 = place fs p (File [] (md\<lparr>mtime := t\<rparr>) False)"
    by (auto simp: open_wb_def split: node.splits if_splits)
  from Inr have "\<forall>r. strict_prefix r p \<longrightarrow> (\<exists>w. fs r = Some (Dir w))"
    by (simp add: os_stat_Inr_iff)
  with fs1 show ?thesis by blast
next
  case (Inl e)
  with assms obtain w where parent: "os_stat fs (butlast p) = Inr (Dir w)"
    and fs1: "fs1 = place fs p (File [] \<lparr>mtime = t, readable = True, writable = True\<rparr> False)"
    by (auto simp: open_wb_def split: sum.splits node.splits if_splits)
  from parents_ok [OF parent] fs1 show ?thesis by blast
qed

lemma copyfile_result:
  assumes src: "os_stat fs src = Inr (File b md False)"
      and nd: "\<not> is_dir fs dst"
      and cp: "copyfile t fs src dst = (r, fs')"
  shows "(r \<noteq> None \<and> fs' = fs) \<or>
         (r = None \<and> readable md \<and> src \<noteq> dst \<and>
          (\<forall>q. strict_prefix q dst \<longrightarrow> (\<exists>w. fs q = Some (Dir w))) \<and>
          (\<exists>md1. fs' = place fs dst (File b md1 False)))"
proof (cases "src = dst")
  case True
  with src cp show ?thesis by (auto simp: copyfile_def path_exists_def)
next
  case ne: False
  show ?thesis
  proof (cases "readable md")
    case False
    with src cp ne show ?thesis by (auto simp: copyfile_def open_rb_def)
  next
    case rd: True
    show ?thesis
    proof (cases "open_wb t fs dst")
      case (Inl e)
      with src cp ne rd show ?thesis by (auto simp: copyfile_def open_rb_def)
    next
      case (Inr fs1)
      from open_wb_Inr [OF Inr] obtain md1 where
        fs1: "fs1 = place fs dst (File [] md1 False)" and
        ok: "\<forall>r. strict_prefix r dst \<longrightarrow> (\<exists>w. fs r = Some (Dir w))" by blast
      from src cp ne rd Inr have "r = None" "fs' = write_all fs1 dst b"
        by (simp_all add: copyfile_def open_rb_def)
      then show ?thesis using fs1 ok rd ne
        by (auto simp: write_all_def place_upd)
    qed
  qed
qed

lemma copy2_result:
  assumes src: "os_stat fs src = Inr (File b md False)"
      and nd: "\<not> is_dir fs dst"
      and cp: "copy2 t fs src dst = (r, fs')"
  shows "(r \<noteq> None \<and> fs' = fs) \<or>
         (r = None \<and> readable md \<and> src \<noteq> dst \<and>
          (\<forall>q. strict_prefix q dst \<longrightarrow> (\<exists>w. fs q = Some (Dir w))) \<and>
          fs' = place fs dst (File b md False))"
proof -
  obtain r1 f1 where cf: "copyfile t fs src dst = (r1, f1)" by (cases "copyfile t fs src dst")
  from copyfile_result [OF src nd cf] show ?thesis
  proof
    assume "r1 \<noteq> None \<and> f1 = fs"
    with cp cf nd show ?thesis by (auto simp: copy2_def)
  next
    assume a: "r1 = None \<and> readable md \<and> src \<noteq> dst \<and>
          (\<forall>q. strict_prefix q dst \<longrightarrow> (\<exists>w. fs q = Some (Dir w))) \<and>
          (\<exists>md1. f1 = place fs dst (File b md1 False))"
    then obtain md1 where f1: "f1 = place fs dst (File b md1 False)" by blast
    from a have ok: "\<forall>q. strict_prefix q dst \<longrightarrow> (\<exists>w. fs q = Some (Dir w))" by blast
    have "\<not> strict_prefix dst src"
      using os_stat_strict_prefix_dir [OF src, of dst] nd by (auto simp: is_dir_def)
    with a src have "os_stat f1 src = Inr (File b md False)"
      unfolding f1 os_stat_place [OF ok] by simp
    with cp cf nd a have "r = None" "fs' = f1(dst \<mapsto> File b md False)"
      by (simp_all add: copy2_def copystat_def f1)
    then show ?thesis using a by (simp add: f1 place_upd)
  qed
qed

section \<open>The ways through \<^verbatim>\<open>sync_file\<close>\<close>

lemma display_status_live_eq:
  "display_status_live (w, m) = (w\<lparr>events := events w @ display_events m\<rparr>, refreshed w m)"
  by (simp add: display_status_live_def display_events_def refreshed_def emit_def Let_def
        create_stats_panel_def)

lemma console_print_eq:
  "console_print msg (w, m) = (w\<lparr>events := events w @ print_events m msg\<rparr>, m)"
  by (simp add: console_print_def print_events_def emit_def)

lemma send_notification_eq:
  "send_notification title ty (w, m) = (w\<lparr>events := events w @ notify_events m ty title\<rparr>, m)"
  by (simp add: send_notification_def notify_events_def emit_def)

lemma logger_eq: "logger lv msg (w, m) = (w\<lparr>events := events w @ [Log lv msg]\<rparr>, m)"
  by (simp add: logger_def emit_def)

lemma refreshed_proj [simp]:
  "file_pairs (refreshed w m) = file_pairs m"
  "check_interval (refreshed w m) = check_interval m"
  "enable_notifications (refreshed w m) = enable_notifications m"
  "running (refreshed w m) = running m"
  "last_update (refreshed w m) = last_update m"
  "notifier (refreshed w m) = notifier m"
  "live (refreshed w m) = live m"
  "layout (refreshed w m) = layout m"
  "rich_available (refreshed w m) = rich_available m"
  "st_sync_count (stats (refreshed w m)) = st_sync_count (stats m)"
  "st_error_count (stats (refreshed w m)) = st_error_count (stats m)"
  "st_start_time (stats (refreshed w m)) = st_start_time (stats m)"
  "st_last_sync (stats (refreshed w m)) = st_last_sync (stats m)"
  "st_total_files (stats (refreshed w m)) = st_total_files (stats m)"
  by (simp_all add: refreshed_def create_stats_panel_def)

lemma update_pair_proj [simp]:
  "file_pairs (update_pair i f m) = (file_pairs m)[i := f (file_pairs m ! i)]"
  "check_interval (update_pair i f m) = check_interval m"
  "enable_notifications (update_pair i f m) = enable_notifications m"
  "running (update_pair i f m) = running m"
  "last_update (update_pair i f m) = last_update m"
  "notifier (update_pair i f m) = notifier m"
  "live (update_pair i f m) = live m"
  "layout (update_pair i f m) = layout m"
  "rich_available (update_pair i f m) = rich_available m"
  "stats (update_pair i f m) = stats m"
  by (simp_all add: update_pair_def)

lemma events_flags [simp]:
  "display_events (refreshed w m) = display_events m"
  "print_events (refreshed w m) msg = print_events m msg"
  "notify_events (refreshed w m) ty title = notify_events m ty title"
  "print_events (update_pair i f m) msg = print_events m msg"
  "notify_events (update_pair i f m) ty title = notify_events m ty title"
  "print_events (m\<lparr>stats := x\<rparr>) msg = print_events m msg"
  "notify_events (m\<lparr>stats := x\<rparr>) ty title = notify_events m ty title"
  "display_events (m\<lparr>stats := x\<rparr>) = display_events m"
  "print_events (m\<lparr>last_update := y\<rparr>) msg = print_events m msg"
  "notify_events (m\<lparr>last_update := y\<rparr>) ty title = notify_events m ty title"
  "display_events (m\<lparr>last_update := y\<rparr>) = display_events m"
  by (simp_all add: display_events_def print_events_def notify_events_def)

text \<open>A later refresh overwrites what an earlier one stored.\<close>

lemma refreshed_absorb:
  "refreshed w (update_pair i f (refreshed w m)) = refreshed w (update_pair i f m)"
  by (simp add: refreshed_def create_stats_panel_def update_pair_def split: option.splits)

lemma refreshed_absorb_stats:
  "refreshed w ((update_pair i f (refreshed w m))
       \<lparr>stats := (stats (refreshed w m))\<lparr>st_error_count := c\<rparr>\<rparr>) =
   refreshed w ((update_pair i f m)\<lparr>stats := (stats m)\<lparr>st_error_count := c\<rparr>\<rparr>)"
  by (simp add: refreshed_def create_stats_panel_def update_pair_def split: option.splits)

lemma refreshed_idem [simp]: "refreshed w (refreshed w m) = refreshed w m"
  by (simp add: refreshed_def create_stats_panel_def split: option.splits)

lemma update_pair_twice:
  "i < length (file_pairs m) \<Longrightarrow>
   update_pair i g (update_pair i f m) = update_pair i (\<lambda>p. g (f p)) m"
  by (simp add: update_pair_def)

lemma refreshed_world [simp]:
  "refreshed (w\<lparr>events := e\<rparr>) m = refreshed w m"
  "refreshed (w\<lparr>fsys := f\<rparr>) m = refreshed w m"
  by (simp_all add: refreshed_def create_stats_panel_def cong: option.case_cong)

lemma display_events_update_refreshed [simp]:
  "display_events (update_pair i f (refreshed w m)) = display_events (update_pair i f m)"
  by (simp add: display_events_def)

lemma display_events_status_only:
  "i < length (file_pairs m) \<Longrightarrow> status (f (file_pairs m ! i)) = status (g (file_pairs m ! i)) \<Longrightarrow>
   display_events (update_pair i f m) = display_events (update_pair i g m)"
  by (simp add: display_events_def map_update)

lemmas sync_unfold =
  sync_file_def sync_try_def sync_except_def Let_def set_status_def display_status_live_eq
  hash_logged_def logger_eq bump_pair_errors_def update_pair_twice refreshed_absorb
  console_print_eq send_notification_eq set_fsys_def record_sync_def

lemma sync_file_hash_fail:
  assumes "i < length (file_pairs m)"
      and "calculate_file_hash H (fsys w) (source (file_pairs m ! i)) = None"
  shows "sync_file H i (w, m) =
     (False,
      w\<lparr>events := events w @ hash_fail_events m i\<rparr>,
      refreshed w (update_pair i err_pair m))"
  using assms by (simp add: sync_unfold err_pair_def set_pair_status_def hash_fail_events_def)

lemma sync_file_noop:
  assumes "i < length (file_pairs m)"
      and "calculate_file_hash H (fsys w) (source (file_pairs m ! i)) = Some h"
      and "path_exists (fsys w) (target (file_pairs m ! i))"
      and "calculate_file_hash H (fsys w) (target (file_pairs m ! i)) = Some h"
  shows "sync_file H i (w, m) =
     (True,
      w\<lparr>events := events w @ noop_events m i\<rparr>,
      refreshed w (update_pair i (set_pair_status ''synced'') m))"
  using assms by (simp add: sync_unfold set_pair_status_def noop_events_def)

lemma sync_file_mkdir_fail:
  assumes "i < length (file_pairs m)"
      and "calculate_file_hash H (fsys w) (source (file_pairs m ! i)) = Some h"
      and "\<not> (path_exists (fsys w) (target (file_pairs m ! i)) \<and>
              calculate_file_hash H (fsys w) (target (file_pairs m ! i)) = Some h)"
      and "mkdir True True (fsys w) (butlast (target (file_pairs m ! i))) = (Some e, f5)"
  shows "sync_file H i (w, m) =
     (False,
      w\<lparr>fsys := f5, events := events w @ attempt_events H w i m @ failure_events m i\<rparr>,
      failed_monitor w i m)"
  using assms
  by (auto simp add: sync_unfold set_pair_status_def err_pair_def failed_monitor_def
        attempt_events_def failure_events_def refreshed_absorb_stats
        split: option.splits)

lemma sync_file_copy_fail:
  assumes "i < length (file_pairs m)"
      and "calculate_file_hash H (fsys w) (source (file_pairs m ! i)) = Some h"
      and "\<not> (path_exists (fsys w) (target (file_pairs m ! i)) \<and>
              calculate_file_hash H (fsys w) (target (file_pairs m ! i)) = Some h)"
      and "mkdir True True (fsys w) (butlast (target (file_pairs m ! i))) = (None, f5)"
      and "copy2 (clock w) f5 (source (file_pairs m ! i)) (target (file_pairs m ! i)) = (Some e, f6)"
  shows "sync_file H i (w, m) =
     (False,
      w\<lparr>fsys := f6, events := events w @ attempt_events H w i m @ failure_events m i\<rparr>,
      failed_monitor w i m)"
  using assms
  by (auto simp add: sync_unfold set_pair_status_def err_pair_def failed_monitor_def
        attempt_events_def failure_events_def refreshed_absorb_stats
        split: option.splits)

lemma refreshed_absorb_copy:
  "refreshed w ((update_pair i f (refreshed w m))
       \<lparr>stats := (stats (refreshed w m))\<lparr>st_sync_count := c, st_last_sync := t\<rparr>,
        last_update := u\<rparr>) =
   refreshed w ((update_pair i f m)\<lparr>stats := (stats m)\<lparr>st_sync_count := c, st_last_sync := t\<rparr>,
        last_update := u\<rparr>)"
  by (simp add: refreshed_def create_stats_panel_def update_pair_def split: option.splits)

lemma sync_file_copy_ok:
  assumes "i < length (file_pairs m)"
      and "calculate_file_hash H (fsys w) (source (file_pairs m ! i)) = Some h"
      and "\<not> (path_exists (fsys w) (target (file_pairs m ! i)) \<and>
              calculate_file_hash H (fsys w) (target (file_pairs m ! i)) = Some h)"
      and "mkdir True True (fsys w) (butlast (target (file_pairs m ! i))) = (None, f5)"
      and "copy2 (clock w) f5 (source (file_pairs m ! i)) (target (file_pairs m ! i)) = (None, f6)"
  shows "sync_file H i (w, m) =
     (True,
      w\<lparr>fsys := f6, events := events w @ attempt_events H w i m @ success_events m i\<rparr>,
      copied_monitor w i h m)"
  using assms
  by (auto simp add: sync_unfold set_pair_status_def rec_pair_def copied_monitor_def
        attempt_events_def success_events_def refreshed_absorb_copy
        display_events_status_only [where f = "\<lambda>p. p\<lparr>last_hash := Some h, last_sync := Some (clock w), status := ''synced''\<rparr>"
           and g = "\<lambda>p. p\<lparr>status := ''synced''\<rparr>"]
        split: option.splits)

text \<open>Every call with a valid index takes exactly one of the five ways.\<close>

lemma sync_file_cases [consumes 1, case_names hash_fail noop mkdir_fail copy_fail copy_ok]:
  assumes "i < length (file_pairs m)"
  obtains
    "calculate_file_hash H (fsys w) (source (file_pairs m ! i)) = None"
    "sync_file H i (w, m) =
       (False, w\<lparr>events := events w @ hash_fail_events m i\<rparr>, refreshed w (update_pair i err_pair m))"
  | h where
    "calculate_file_hash H (fsys w) (source (file_pairs m ! i)) = Some h"
    "path_exists (fsys w) (target (file_pairs m ! i))"
    "calculate_file_hash H (fsys w) (target (file_pairs m ! i)) = Some h"
    "sync_file H i (w, m) =
       (True, w\<lparr>events := events w @ noop_events m i\<rparr>,
        refreshed w (update_pair i (set_pair_status ''synced'') m))"
  | h e f5 where
    "calculate_file_hash H (fsys w) (source (file_pairs m ! i)) = Some h"
    "\<not> (path_exists (fsys w) (target (file_pairs m ! i)) \<and>
        calculate_file_hash H (fsys w) (target (file_pairs m ! i)) = Some h)"
    "mkdir True True (fsys w) (butlast (target (file_pairs m ! i))) = (Some e, f5)"
    "sync_file H i (w, m) =
       (False, w\<lparr>fsys := f5, events := events w @ attempt_events H w i m @ failure_events m i\<rparr>,
        failed_monitor w i m)"
  | h e f5 f6 where
    "calculate_file_hash H (fsys w) (source (file_pairs m ! i)) = Some h"
    "\<not> (path_exists (fsys w) (target (file_pairs m ! i)) \<and>
        calculate_file_hash H (fsys w) (target (file_pairs m ! i)) = Some h)"
    "mkdir True True (fsys w) (butlast (target (file_pairs m ! i))) = (None, f5)"
    "copy2 (clock w) f5 (source (file_pairs m ! i)) (target (file_pairs m ! i)) = (Some e, f6)"
    "sync_file H i (w, m) =
       (False, w\<lparr>fsys := f6, events := events w @ attempt_events H w i m @ failure_events m i\<rparr>,
        failed_monitor w i m)"
  | h f5 f6 where
    "calculate_file_hash H (fsys w) (source (file_pairs m ! i)) = Some h"
    "\<not> (path_exists (fsys w) (target (file_pairs m ! i)) \<and>
        calculate_file_hash H (fsys w) (target (file_pairs m ! i)) = Some h)"
    "mkdir True True (fsys w) (butlast (target (file_pairs m ! i))) = (None, f5)"
    "copy2 (clock w) f5 (source (file_pairs m ! i)) (target (file_pairs m ! i)) = (None, f6)"
    "sync_file H i (w, m) =
       (True, w\<lparr>fsys := f6, events := events w @ attempt_events H w i m @ success_events m i\<rparr>,
        copied_monitor w i h m)"
proof (cases "calculate_file_hash H (fsys w) (source (file_pairs m ! i))")
  case None
  then show ?thesis using sync_file_hash_fail [OF assms None] that(1) by blast
next
  case (Some h)
  show ?thesis
  proof (cases "path_exists (fsys w) (target (file_pairs m ! i)) \<and>
        calculate_file_hash H (fsys w) (target (file_pairs m ! i)) = Some h")
    case True
    then show ?thesis using sync_file_noop [OF assms Some] that(2) Some by blast
  next
    case differ: False
    obtain r5 f5 where mk: "mkdir True True (fsys w) (butlast (target (file_pairs m ! i))) = (r5, f5)"
      by (cases "mkdir True True (fsys w) (butlast (target (file_pairs m ! i)))")
    show ?thesis
    proof (cases r5)
      case (Some e)
      with mk sync_file_mkdir_fail [OF assms \<open>calculate_file_hash H (fsys w) (source (file_pairs m ! i)) = Some h\<close> differ]
        that(3) \<open>calculate_file_hash H (fsys w) (source (file_pairs m ! i)) = Some h\<close> differ
      show ?thesis by blast
    next
      case None
      obtain r6 f6 where cp:
        "copy2 (clock w) f5 (source (file_pairs m ! i)) (target (file_pairs m ! i)) = (r6, f6)"
        by (cases "copy2 (clock w) f5 (source (file_pairs m ! i)) (target (file_pairs m ! i))")
      note hs = \<open>calculate_file_hash H (fsys w) (source (file_pairs m ! i)) = Some h\<close>
      show ?thesis
      proof (cases r6)
        case (Some e)
        with mk None cp sync_file_copy_fail [OF assms hs differ] that(4) hs differ
        show ?thesis by blast
      next
        case r6: None
        with mk None cp sync_file_copy_ok [OF assms hs differ] that(5) hs differ
        show ?thesis by blast
      qed
    qed
  qed
qed

lemma outcome_proj [simp]:
  "file_pairs (failed_monitor w i m) = (file_pairs m)[i := err_pair (file_pairs m ! i)]"
  "file_pairs (copied_monitor w i h m) = (file_pairs m)[i := rec_pair h (clock w) (file_pairs m ! i)]"
  "st_sync_count (stats (failed_monitor w i m)) = st_sync_count (stats m)"
  "st_error_count (stats (failed_monitor w i m)) = st_error_count (stats m) + 1"
  "st_last_sync (stats (failed_monitor w i m)) = st_last_sync (stats m)"
  "st_sync_count (stats (copied_monitor w i h m)) = st_sync_count (stats m) + 1"
  "st_error_count (stats (copied_monitor w i h m)) = st_error_count (stats m)"
  "st_last_sync (stats (copied_monitor w i h m)) = Some (clock w)"
  by (simp_all add: failed_monitor_def copied_monitor_def)

section \<open>Failure leaves the bookkeeping alone\<close>

lemma refreshed_frame:
  "\<exists>u k. refreshed w m = m\<lparr>stats := (stats m)\<lparr>st_uptime := u, st_synced_files := k\<rparr>\<rparr> \<and>
         (\<not> (rich_available m \<and> live m \<and> layout m) \<longrightarrow>
            u = st_uptime (stats m) \<and> k = st_synced_files (stats m))"
proof (cases "rich_available m \<and> live m \<and> layout m")
  case True
  then show ?thesis
    by (auto simp: refreshed_def create_stats_panel_def)
next
  case False
  then have "refreshed w m = m" by (auto simp: refreshed_def)
  then show ?thesis
    by (intro exI [of _ "st_uptime (stats m)"] exI [of _ "st_synced_files (stats m)"]) simp
qed

text \<open>
  C10 (as amended). When \<^verbatim>\<open>sync_file\<close> returns False, the monitor afterwards is the
  monitor before with the pair's status set to \<^verbatim>\<open>"error"\<close>, the pair's error count
  raised by one, the run's error count either unchanged or raised by one, and the two
  values the dashboard derives on a refresh (uptime, number of synced files)
  recomputed; these two are untouched unless a live dashboard with a layout is
  attached. Every other field (the pair's \<^verbatim>\<open>last_hash\<close> and \<^verbatim>\<open>last_sync\<close>, the run's
  sync count and last-sync time, the other pairs) is as before.
\<close>

theorem failure_leaves_record:
  assumes "i < length (file_pairs m)"
      and "sync_file H i (w, m) = (False, w', m')"
  shows "\<exists>ec u k.
           m' = m\<lparr>file_pairs := (file_pairs m)[i := (file_pairs m ! i)
                      \<lparr>status := ''error'', error_count := error_count (file_pairs m ! i) + 1\<rparr>],
                   stats := (stats m)\<lparr>st_error_count := ec, st_uptime := u, st_synced_files := k\<rparr>\<rparr> \<and>
           (ec = st_error_count (stats m) \<or> ec = st_error_count (stats m) + 1) \<and>
           (\<not> (rich_available m \<and> live m \<and> layout m) \<longrightarrow>
              u = st_uptime (stats m) \<and> k = st_synced_files (stats m))"
  using assms(1)
proof (cases rule: sync_file_cases [where H = H and w = w])
  case hash_fail
  with assms(2) have m': "m' = refreshed w (update_pair i err_pair m)" by simp
  from refreshed_frame [of w "update_pair i err_pair m"] obtain u k where
    "refreshed w (update_pair i err_pair m) =
       (update_pair i err_pair m)\<lparr>stats := (stats (update_pair i err_pair m))\<lparr>st_uptime := u, st_synced_files := k\<rparr>\<rparr>"
    "\<not> (rich_available m \<and> live m \<and> layout m) \<longrightarrow> u = st_uptime (stats m) \<and> k = st_synced_files (stats m)"
    by auto
  then show ?thesis
    unfolding m'
    apply (rule_tac x = "st_error_count (stats m)" in exI)
    apply (rule_tac x = u in exI)
    apply (rule_tac x = k in exI)
    apply (simp add: update_pair_def err_pair_def)
    done
next
  case (noop h)
  with assms(2) show ?thesis by simp
next
  case (mkdir_fail h e f5)
  with assms(2) have m': "m' = failed_monitor w i m" by simp
  let ?m1 = "(update_pair i err_pair m)\<lparr>stats := (stats m)\<lparr>st_error_count := st_error_count (stats m) + 1\<rparr>\<rparr>"
  from refreshed_frame [of w ?m1] obtain u k where
    "refreshed w ?m1 = ?m1\<lparr>stats := (stats ?m1)\<lparr>st_uptime := u, st_synced_files := k\<rparr>\<rparr>"
    "\<not> (rich_available m \<and> live m \<and> layout m) \<longrightarrow> u = st_uptime (stats m) \<and> k = st_synced_files (stats m)"
    by auto
  then show ?thesis
    unfolding m' failed_monitor_def
    apply (rule_tac x = "st_error_count (stats m) + 1" in exI)
    apply (rule_tac x = u in exI)
    apply (rule_tac x = k in exI)
    apply (simp add: update_pair_def err_pair_def)
    done
next
  case (copy_fail h e f5 f6)
  with assms(2) have m': "m' = failed_monitor w i m" by simp
  let ?m1 = "(update_pair i err_pair m)\<lparr>stats := (stats m)\<lparr>st_error_count := st_error_count (stats m) + 1\<rparr>\<rparr>"
  from refreshed_frame [of w ?m1] obtain u k where
    "refreshed w ?m1 = ?m1\<lparr>stats := (stats ?m1)\<lparr>st_uptime := u, st_synced_files := k\<rparr>\<rparr>"
    "\<not> (rich_available m \<and> live m \<and> layout m) \<longrightarrow> u = st_uptime (stats m) \<and> k = st_synced_files (stats m)"
    by auto
  then show ?thesis
    unfolding m' failed_monitor_def
    apply (rule_tac x = "st_error_count (stats m) + 1" in exI)
    apply (rule_tac x = u in exI)
    apply (rule_tac x = k in exI)
    apply (simp add: update_pair_def err_pair_def)
    done
next
  case (copy_ok h f5 f6)
  with assms(2) show ?thesis by simp
qed

lemma demo_hash_missing:
  "calculate_file_hash demo_digest demo_fs [''src'', ''missing.txt''] = None"
  by (simp add: calculate_file_hash_def file_digest_def open_rb_def os_stat_def demo_fs_def)

lemma sync_missing_plain:
  "sync_file demo_digest 0 (demo_world, plain_monitor [pair_missing]) =
     (False, demo_world\<lparr>events := [Log EXCEPTION ''Failed to hash file'']\<rparr>,
      update_pair 0 err_pair (plain_monitor [pair_missing]))"
proof -
  have "sync_file demo_digest 0 (demo_world, plain_monitor [pair_missing]) =
     (False, demo_world\<lparr>events := events demo_world @ hash_fail_events (plain_monitor [pair_missing]) 0\<rparr>,
      refreshed demo_world (update_pair 0 err_pair (plain_monitor [pair_missing])))"
    by (rule sync_file_hash_fail)
       (simp_all add: plain_monitor_def init_monitor_def pair_missing_def new_FilePair_def
          demo_world_def demo_hash_missing)
  then show ?thesis
    by (simp add: hash_fail_events_def display_events_def refreshed_def plain_monitor_def
          init_monitor_def demo_world_def update_pair_def)
qed

text \<open>The theorem at a missing source, in a plain monitor.\<close>

theorem failure_leaves_record_witness:
  "0 < length (file_pairs (plain_monitor [pair_missing])) \<and>
   sync_file demo_digest 0 (demo_world, plain_monitor [pair_missing]) =
     (False, demo_world\<lparr>events := [Log EXCEPTION ''Failed to hash file'']\<rparr>,
      update_pair 0 err_pair (plain_monitor [pair_missing])) \<and>
   (\<exists>ec u k.
      update_pair 0 err_pair (plain_monitor [pair_missing]) =
        (plain_monitor [pair_missing])
          \<lparr>file_pairs := (file_pairs (plain_monitor [pair_missing]))
             [0 := (file_pairs (plain_monitor [pair_missing]) ! 0)
                \<lparr>status := ''error'',
                 error_count := error_count (file_pairs (plain_monitor [pair_missing]) ! 0) + 1\<rparr>],
           stats := (stats (plain_monitor [pair_missing]))
             \<lparr>st_error_count := ec, st_uptime := u, st_synced_files := k\<rparr>\<rparr> \<and>
      (ec = st_error_count (stats (plain_monitor [pair_missing])) \<or>
       ec = st_error_count (stats (plain_monitor [pair_missing])) + 1) \<and>
      (\<not> (rich_available (plain_monitor [pair_missing]) \<and> live (plain_monitor [pair_missing]) \<and>
           layout (plain_monitor [pair_missing])) \<longrightarrow>
         u = st_uptime (stats (plain_monitor [pair_missing])) \<and>
         k = st_synced_files (stats (plain_monitor [pair_missing]))))"
proof -
  have h1: "0 < length (file_pairs (plain_monitor [pair_missing]))"
    by (simp add: plain_monitor_def init_monitor_def)
  from failure_leaves_record [OF h1 sync_missing_plain] h1 sync_missing_plain
  show ?thesis by blast
qed

text \<open>
  C10 as stated fails with the live dashboard attached: the failed attempt ends with a
  refresh, and the refresh stores the uptime (here 5 seconds, 0 before) in the run's
  statistics.
\<close>

theorem failure_refreshes_uptime:
  "fst (sync_file demo_digest 0 (demo_world, live_monitor [pair_missing])) = False \<and>
   st_uptime (stats (live_monitor [pair_missing])) = 0 \<and>
   st_uptime (stats (snd (snd (sync_file demo_digest 0 (demo_world, live_monitor [pair_missing]))))) = 5"
proof -
  have "sync_file demo_digest 0 (demo_world, live_monitor [pair_missing]) =
     (False, demo_world\<lparr>events := events demo_world @ hash_fail_events (live_monitor [pair_missing]) 0\<rparr>,
      refreshed demo_world (update_pair 0 err_pair (live_monitor [pair_missing])))"
    by (rule sync_file_hash_fail)
       (simp_all add: live_monitor_def init_monitor_def pair_missing_def new_FilePair_def
          demo_world_def demo_hash_missing)
  then show ?thesis
    by (simp add: refreshed_def create_stats_panel_def live_monitor_def init_monitor_def
          demo_world_def update_pair_def)
qed

section \<open>A source that cannot be hashed\<close>

lemma demo_hash_a:
  "calculate_file_hash demo_digest demo_fs [''src'', ''a.txt''] = Some ''v1''"
  by (simp add: calculate_file_hash_Some_iff os_stat_def demo_fs_def demo_meta_def demo_digest_def)

lemma demo_blocked_absent: "\<not> path_exists demo_fs [''src'', ''same.txt'', ''a.txt'']"
  by (simp add: path_exists_def os_stat_def demo_fs_def)

lemma demo_blocked_mkdir:
  "mkdir True True demo_fs [''src'', ''same.txt''] = (Some FileExistsError, demo_fs)"
  by (simp add: mkdir.simps os_mkdir_def is_dir_def os_stat_def demo_fs_def)

lemma sync_blocked:
  assumes "file_pairs m = [pair_blocked]"
  shows "sync_file demo_digest 0 (demo_world, m) =
     (False,
      demo_world\<lparr>events := attempt_events demo_digest demo_world 0 m @ failure_events m 0\<rparr>,
      failed_monitor demo_world 0 m)"
proof -
  have "sync_file demo_digest 0 (demo_world, m) =
     (False,
      demo_world\<lparr>fsys := demo_fs,
         events := events demo_world @ attempt_events demo_digest demo_world 0 m @ failure_events m 0\<rparr>,
      failed_monitor demo_world 0 m)"
    by (rule sync_file_mkdir_fail [where h = "''v1''" and e = FileExistsError])
       (simp_all add: assms pair_blocked_def new_FilePair_def demo_world_def demo_hash_a
          demo_blocked_absent demo_blocked_mkdir)
  then show ?thesis by (simp add: demo_world_def)
qed

text \<open>
  C1 on the code. The source of the pair is missing. \<^verbatim>\<open>sync_file\<close> returns False, sets
  the status to \<^verbatim>\<open>"error"\<close>, raises the pair's error count by one and touches no file,
  but the run's error count stays as it was. The \<^verbatim>\<open>except\<close> handler, reached here by
  a target whose parent is a regular file, does raise the run's error count.
\<close>

theorem hash_failure_skips_run_error_count:
  "sync_file demo_digest 0 (demo_world, plain_monitor [pair_missing]) =
     (False, demo_world\<lparr>events := [Log EXCEPTION ''Failed to hash file'']\<rparr>,
      update_pair 0 err_pair (plain_monitor [pair_missing])) \<and>
   status (file_pairs (update_pair 0 err_pair (plain_monitor [pair_missing])) ! 0) = ''error'' \<and>
   error_count (file_pairs (update_pair 0 err_pair (plain_monitor [pair_missing])) ! 0) =
     error_count pair_missing + 1 \<and>
   st_error_count (stats (update_pair 0 err_pair (plain_monitor [pair_missing]))) =
     st_error_count (stats (plain_monitor [pair_missing])) \<and>
   st_error_count (stats (snd (snd (sync_file demo_digest 0 (demo_world, plain_monitor [pair_blocked]))))) =
     st_error_count (stats (plain_monitor [pair_blocked])) + 1"
proof -
  have "file_pairs (plain_monitor [pair_blocked]) = [pair_blocked]"
    by (simp add: plain_monitor_def init_monitor_def)
  from sync_blocked [OF this] sync_missing_plain show ?thesis
    by (simp add: update_pair_def err_pair_def plain_monitor_def init_monitor_def)
qed

text \<open>
  C8 on the code. \<^verbatim>\<open>sync_file\<close> always returns a boolean (it is a total function
  of the state, and both exceptional results of \<open>sync_try\<close> are handled). After a hash
  failure the only things emitted are the hasher's log record and, with a live
  dashboard, the refreshes: no \<^verbatim>\<open>sync_error\<close> notification. A failure of \<^verbatim>\<open>mkdir\<close>
  or of the copy does send one.
\<close>

theorem hash_failure_sends_no_error_event:
  "fst (sync_file demo_digest 0 (demo_world, live_monitor [pair_missing])) = False \<and>
   events (fst (snd (sync_file demo_digest 0 (demo_world, live_monitor [pair_missing])))) =
     [Display [''syncing''], Log EXCEPTION ''Failed to hash file'', Display [''error'']] \<and>
   events (fst (snd (sync_file demo_digest 0 (demo_world, plain_monitor [pair_missing])))) =
     [Log EXCEPTION ''Failed to hash file''] \<and>
   fst (sync_file demo_digest 0 (demo_world, plain_monitor [pair_blocked])) = False \<and>
   events (fst (snd (sync_file demo_digest 0 (demo_world, plain_monitor [pair_blocked])))) =
     [Log INFO ''Syncing'', Log EXCEPTION ''Failed to sync'', Notify ''sync_error'' ''Sync Error'']"
proof -
  have live: "sync_file demo_digest 0 (demo_world, live_monitor [pair_missing]) =
     (False, demo_world\<lparr>events := events demo_world @ hash_fail_events (live_monitor [pair_missing]) 0\<rparr>,
      refreshed demo_world (update_pair 0 err_pair (live_monitor [pair_missing])))"
    by (rule sync_file_hash_fail)
       (simp_all add: live_monitor_def init_monitor_def pair_missing_def new_FilePair_def
          demo_world_def demo_hash_missing)
  have "file_pairs (plain_monitor [pair_blocked]) = [pair_blocked]"
    by (simp add: plain_monitor_def init_monitor_def)
  from sync_blocked [OF this] sync_missing_plain live show ?thesis
    by (simp add: hash_fail_events_def attempt_events_def failure_events_def display_events_def
          print_events_def notify_events_def update_pair_def err_pair_def set_pair_status_def
          plain_monitor_def live_monitor_def init_monitor_def demo_world_def pair_missing_def
          pair_blocked_def new_FilePair_def demo_blocked_absent)
qed

section \<open>Source and target already equal\<close>

lemma refreshed_clock: "clock w' = clock w \<Longrightarrow> refreshed w' m = refreshed w m"
  by (simp add: refreshed_def create_stats_panel_def cong: option.case_cong)

text \<open>
  C4. When the source and the existing target hash to the same digest, \<^verbatim>\<open>sync_file\<close>
  returns True, leaves the file system as it is (no copy), sets the pair's status to
  \<^verbatim>\<open>"synced"\<close> and changes no other field of the pair, so \<^verbatim>\<open>last_hash\<close> and
  \<^verbatim>\<open>last_sync\<close> are as before, as are the run's sync count and last-sync time; it sends
  no notification. A second call in the state so reached returns True again and leaves
  the file system and the whole monitor unchanged.
\<close>

theorem noop_sync:
  assumes "i < length (file_pairs m)"
      and "calculate_file_hash H (fsys w) (source (file_pairs m ! i)) = Some h"
      and "path_exists (fsys w) (target (file_pairs m ! i))"
      and "calculate_file_hash H (fsys w) (target (file_pairs m ! i)) = Some h"
      and "sync_file H i (w, m) = (ok, w', m')"
      and "sync_file H i (w', m') = (ok2, w2, m2)"
  shows "ok \<and> fsys w' = fsys w \<and>
         file_pairs m' = (file_pairs m)[i := (file_pairs m ! i)\<lparr>status := ''synced''\<rparr>] \<and>
         status (file_pairs m' ! i) = ''synced'' \<and>
         last_hash (file_pairs m' ! i) = last_hash (file_pairs m ! i) \<and>
         last_sync (file_pairs m' ! i) = last_sync (file_pairs m ! i) \<and>
         st_sync_count (stats m') = st_sync_count (stats m) \<and>
         st_last_sync (stats m') = st_last_sync (stats m) \<and>
         notifications (events w') = notifications (events w) \<and>
         ok2 \<and> fsys w2 = fsys w' \<and> m2 = m'"
proof -
  from sync_file_noop [OF assms(1-4)] assms(5)
  have r1: "ok" "w' = w\<lparr>events := events w @ noop_events m i\<rparr>"
    "m' = refreshed w (update_pair i (set_pair_status ''synced'') m)" by simp_all
  have i': "i < length (file_pairs m')" using assms(1) by (simp add: r1)
  have fs': "fsys w' = fsys w" by (simp add: r1)
  have src: "source (file_pairs m' ! i) = source (file_pairs m ! i)"
    and tgt: "target (file_pairs m' ! i) = target (file_pairs m ! i)"
    using assms(1) by (simp_all add: r1 set_pair_status_def)
  have "sync_file H i (w', m') =
      (True, w'\<lparr>events := events w' @ noop_events m' i\<rparr>,
        refreshed w' (update_pair i (set_pair_status ''synced'') m'))"
    by (rule sync_file_noop [OF i', where h = h]) (simp_all add: src tgt fs' assms(2-4))
  with assms(6) have r2: "ok2" "w2 = w'\<lparr>events := events w' @ noop_events m' i\<rparr>"
    "m2 = refreshed w' (update_pair i (set_pair_status ''synced'') m')" by simp_all
  have "m2 = m'"
    using assms(1) unfolding r2 r1
    by (simp add: refreshed_absorb update_pair_twice set_pair_status_def)
  moreover have "notifications (noop_events m i) = []"
    by (simp add: notifications_def noop_events_def display_events_def)
  ultimately show ?thesis using assms(1) r1 r2
    by (simp add: set_pair_status_def notifications_def)
qed

lemma demo_hash_same:
  "calculate_file_hash demo_digest demo_fs [''src'', ''same.txt''] = Some ''v0''"
  "calculate_file_hash demo_digest demo_fs [''out'', ''same.txt''] = Some ''v0''"
  "path_exists demo_fs [''out'', ''same.txt'']"
  by (simp_all add: calculate_file_hash_Some_iff path_exists_def os_stat_def demo_fs_def
        demo_meta_def demo_digest_def)

lemma sync_same:
  assumes "file_pairs m = [pair_same]"
  shows "sync_file demo_digest 0 (demo_world, m) =
     (True, demo_world\<lparr>events := noop_events m 0\<rparr>,
      refreshed demo_world (update_pair 0 (set_pair_status ''synced'') m))"
proof -
  have "sync_file demo_digest 0 (demo_world, m) =
     (True, demo_world\<lparr>events := events demo_world @ noop_events m 0\<rparr>,
      refreshed demo_world (update_pair 0 (set_pair_status ''synced'') m))"
    by (rule sync_file_noop [where h = "''v0''"])
       (simp_all add: assms pair_same_def new_FilePair_def demo_world_def demo_hash_same)
  then show ?thesis by (simp add: demo_world_def)
qed

lemma plain_same_once:
  "sync_file demo_digest 0 (demo_world, plain_monitor [pair_same]) =
     (True, demo_world, plain_monitor [pair_same\<lparr>status := ''synced''\<rparr>])"
proof -
  have "file_pairs (plain_monitor [pair_same]) = [pair_same]"
    by (simp add: plain_monitor_def init_monitor_def)
  from sync_same [OF this] show ?thesis
    by (simp add: noop_events_def display_events_def refreshed_def update_pair_def
          set_pair_status_def plain_monitor_def init_monitor_def demo_world_def)
qed

lemma plain_same_twice:
  "sync_file demo_digest 0 (demo_world, plain_monitor [pair_same\<lparr>status := ''synced''\<rparr>]) =
     (True, demo_world, plain_monitor [pair_same\<lparr>status := ''synced''\<rparr>])"
proof -
  have "sync_file demo_digest 0 (demo_world, plain_monitor [pair_same\<lparr>status := ''synced''\<rparr>]) =
     (True, demo_world\<lparr>events := events demo_world
          @ noop_events (plain_monitor [pair_same\<lparr>status := ''synced''\<rparr>]) 0\<rparr>,
      refreshed demo_world (update_pair 0 (set_pair_status ''synced'')
          (plain_monitor [pair_same\<lparr>status := ''synced''\<rparr>])))"
    by (rule sync_file_noop [where h = "''v0''"])
       (simp_all add: plain_monitor_def init_monitor_def pair_same_def new_FilePair_def
          demo_world_def demo_hash_same)
  then show ?thesis
    by (simp add: noop_events_def display_events_def refreshed_def update_pair_def
          set_pair_status_def plain_monitor_def init_monitor_def demo_world_def)
qed

theorem noop_sync_witness:
  "0 < length (file_pairs (plain_monitor [pair_same])) \<and>
   calculate_file_hash demo_digest (fsys demo_world) (source (file_pairs (plain_monitor [pair_same]) ! 0))
     = Some ''v0'' \<and>
   path_exists (fsys demo_world) (target (file_pairs (plain_monitor [pair_same]) ! 0)) \<and>
   calculate_file_hash demo_digest (fsys demo_world) (target (file_pairs (plain_monitor [pair_same]) ! 0))
     = Some ''v0'' \<and>
   sync_file demo_digest 0 (demo_world, plain_monitor [pair_same]) =
     (True, demo_world, plain_monitor [pair_same\<lparr>status := ''synced''\<rparr>]) \<and>
   sync_file demo_digest 0 (demo_world, plain_monitor [pair_same\<lparr>status := ''synced''\<rparr>]) =
     (True, demo_world, plain_monitor [pair_same\<lparr>status := ''synced''\<rparr>]) \<and>
   last_hash (file_pairs (plain_monitor [pair_same\<lparr>status := ''synced''\<rparr>]) ! 0) =
     last_hash (file_pairs (plain_monitor [pair_same]) ! 0) \<and>
   st_sync_count (stats (plain_monitor [pair_same\<lparr>status := ''synced''\<rparr>])) =
     st_sync_count (stats (plain_monitor [pair_same]))"
proof -
  have h1: "0 < length (file_pairs (plain_monitor [pair_same]))"
    by (simp add: plain_monitor_def init_monitor_def)
  have h2: "calculate_file_hash demo_digest (fsys demo_world)
      (source (file_pairs (plain_monitor [pair_same]) ! 0)) = Some ''v0''"
    by (simp add: plain_monitor_def init_monitor_def pair_same_def new_FilePair_def
          demo_world_def demo_hash_same)
  have h3: "path_exists (fsys demo_world) (target (file_pairs (plain_monitor [pair_same]) ! 0))"
    by (simp add: plain_monitor_def init_monitor_def pair_same_def new_FilePair_def
          demo_world_def demo_hash_same)
  have h4: "calculate_file_hash demo_digest (fsys demo_world)
      (target (file_pairs (plain_monitor [pair_same]) ! 0)) = Some ''v0''"
    by (simp add: plain_monitor_def init_monitor_def pair_same_def new_FilePair_def
          demo_world_def demo_hash_same)
  from noop_sync [OF h1 h2 h3 h4 plain_same_once plain_same_twice]
    h1 h2 h3 h4 plain_same_once plain_same_twice
  show ?thesis by simp
qed

section \<open>What a call emits\<close>

lemma notifications_simps [simp]:
  "notifications [] = []"
  "notifications (xs @ ys) = notifications xs @ notifications ys"
  "notifications (Log lv msg # xs) = notifications xs"
  "notifications (Print msg # xs) = notifications xs"
  "notifications (Display shown # xs) = notifications xs"
  "notifications (Notify ty title # xs) = Notify ty title # notifications xs"
  by (simp_all add: notifications_def)

lemma notifications_helpers [simp]:
  "notifications (display_events m) = []"
  "notifications (print_events m msg) = []"
  "notifications (notify_events m ty title) = notify_events m ty title"
  "notifications (attempt_events H w i m) = []"
  "notifications (noop_events m i) = []"
  "notifications (hash_fail_events m i) = []"
  "notifications (failure_events m i) = notify_events m ''sync_error'' ''Sync Error''"
  "notifications (success_events m i) = notify_events m ''file_changed'' ''File Synchronized''"
  by (simp_all add: display_events_def print_events_def notify_events_def attempt_events_def
        noop_events_def hash_fail_events_def failure_events_def success_events_def)

lemma display_events_last:
  assumes "rich_available m" and "live m"
  shows "\<exists>shown. display_events (update_pair i f m) = [Display shown]"
  using assms by (simp add: display_events_def)

lemma closing_refresh:
  assumes "rich_available m" and "live m"
  shows "\<exists>shown. hash_fail_events m i \<noteq> [] \<and> last (hash_fail_events m i) = Display shown"
    and "\<exists>shown. noop_events m i \<noteq> [] \<and> last (noop_events m i) = Display shown"
    and "\<exists>shown. xs @ failure_events m i \<noteq> [] \<and> last (xs @ failure_events m i) = Display shown"
    and "\<exists>shown. xs @ success_events m i \<noteq> [] \<and> last (xs @ success_events m i) = Display shown"
proof -
  from display_events_last [OF assms, of i err_pair]
  obtain s1 where s1: "display_events (update_pair i err_pair m) = [Display s1]" by blast
  from display_events_last [OF assms, of i "set_pair_status ''synced''"]
  obtain s2 where s2: "display_events (update_pair i (set_pair_status ''synced'') m) = [Display s2]"
    by blast
  show "\<exists>shown. hash_fail_events m i \<noteq> [] \<and> last (hash_fail_events m i) = Display shown"
    by (simp add: hash_fail_events_def s1)
  show "\<exists>shown. noop_events m i \<noteq> [] \<and> last (noop_events m i) = Display shown"
    by (simp add: noop_events_def s2)
  show "\<exists>shown. xs @ failure_events m i \<noteq> [] \<and> last (xs @ failure_events m i) = Display shown"
    by (simp add: failure_events_def s1)
  show "\<exists>shown. xs @ success_events m i \<noteq> [] \<and> last (xs @ success_events m i) = Display shown"
    by (simp add: success_events_def s2)
qed

text \<open>
  C5 (as amended). One call of \<^verbatim>\<open>sync_file\<close> appends events and removes none. When the
  source can be hashed it sends no notification on the no-op way, exactly one
  \<^verbatim>\<open>file_changed\<close> notification after a copy and exactly one \<^verbatim>\<open>sync_error\<close>
  notification when \<^verbatim>\<open>mkdir\<close> or the copy raised, the latter two provided a notifier
  exists and notifications are enabled. With a live dashboard attached, the last event
  of every call is a refresh of the dashboard.
\<close>

theorem sync_file_events:
  assumes "i < length (file_pairs m)"
      and "sync_file H i (w, m) = (ok, w', m')"
  shows "\<exists>new. events w' = events w @ new \<and>
     (calculate_file_hash H (fsys w) (source (file_pairs m ! i)) \<noteq> None \<longrightarrow>
        notifications new =
          (if path_exists (fsys w) (target (file_pairs m ! i)) \<and>
              calculate_file_hash H (fsys w) (target (file_pairs m ! i)) =
                calculate_file_hash H (fsys w) (source (file_pairs m ! i))
           then []
           else if notifier m \<and> enable_notifications m
           then [if ok then Notify ''file_changed'' ''File Synchronized''
                 else Notify ''sync_error'' ''Sync Error'']
           else [])) \<and>
     (rich_available m \<and> live m \<longrightarrow> (\<exists>shown. new \<noteq> [] \<and> last new = Display shown))"
  using assms(1)
proof (cases rule: sync_file_cases [where H = H and w = w])
  case hash_fail
  with assms(2) have "events w' = events w @ hash_fail_events m i" by auto
  with hash_fail(1) closing_refresh(1) [of m i] show ?thesis by auto
next
  case (noop h)
  with assms(2) have "events w' = events w @ noop_events m i" by auto
  with noop(1-3) closing_refresh(2) [of m i] show ?thesis
    by (intro exI [of _ "noop_events m i"]) auto
next
  case (mkdir_fail h e f5)
  with assms(2) have "events w' = events w @ (attempt_events H w i m @ failure_events m i)" "\<not> ok"
    by auto
  with mkdir_fail(1,2) closing_refresh(3) [of m "attempt_events H w i m" i] show ?thesis
    by (intro exI [of _ "attempt_events H w i m @ failure_events m i"])
       (auto simp: notify_events_def)
next
  case (copy_fail h e f5 f6)
  with assms(2) have "events w' = events w @ (attempt_events H w i m @ failure_events m i)" "\<not> ok"
    by auto
  with copy_fail(1,2) closing_refresh(3) [of m "attempt_events H w i m" i] show ?thesis
    by (intro exI [of _ "attempt_events H w i m @ failure_events m i"])
       (auto simp: notify_events_def)
next
  case (copy_ok h f5 f6)
  with assms(2) have "events w' = events w @ (attempt_events H w i m @ success_events m i)" "ok"
    by auto
  with copy_ok(1,2) closing_refresh(4) [of m "attempt_events H w i m" i] show ?thesis
    by (intro exI [of _ "attempt_events H w i m @ success_events m i"])
       (auto simp: notify_events_def)
qed


text \<open>The theorem at a target whose parent is a regular file, with the dashboard attached.\<close>

theorem sync_file_events_witness:
  "0 < length (file_pairs (live_monitor [pair_blocked])) \<and>
   calculate_file_hash demo_digest (fsys demo_world)
     (source (file_pairs (live_monitor [pair_blocked]) ! 0)) \<noteq> None \<and>
   rich_available (live_monitor [pair_blocked]) \<and> live (live_monitor [pair_blocked]) \<and>
   fst (sync_file demo_digest 0 (demo_world, live_monitor [pair_blocked])) = False \<and>
   (\<exists>new. events (fst (snd (sync_file demo_digest 0 (demo_world, live_monitor [pair_blocked])))) =
            events demo_world @ new \<and>
          notifications new = [Notify ''sync_error'' ''Sync Error''] \<and>
          (\<exists>shown. new \<noteq> [] \<and> last new = Display shown))"
proof -
  let ?m = "live_monitor [pair_blocked]"
  let ?r = "sync_file demo_digest 0 (demo_world, ?m)"
  have fp: "file_pairs ?m = [pair_blocked]" by (simp add: live_monitor_def init_monitor_def)
  have h1: "0 < length (file_pairs ?m)" by (simp add: fp)
  have h2: "?r = (False, fst (snd ?r), snd (snd ?r))" by (simp add: sync_blocked [OF fp])
  have c1: "calculate_file_hash demo_digest (fsys demo_world) (source (file_pairs ?m ! 0)) \<noteq> None"
    unfolding fp by (simp add: pair_blocked_def new_FilePair_def demo_world_def demo_hash_a)
  have c2: "\<not> path_exists (fsys demo_world) (target (file_pairs ?m ! 0))"
    unfolding fp by (simp add: pair_blocked_def new_FilePair_def demo_world_def demo_blocked_absent)
  have c3: "rich_available ?m \<and> live ?m \<and> notifier ?m \<and> enable_notifications ?m"
    by (simp add: live_monitor_def init_monitor_def)
  have c0: "fst ?r = False" by (simp add: sync_blocked [OF fp])
  from sync_file_events [OF h1 h2] c0 c1 c2 c3 h1 show ?thesis by auto
qed

text \<open>
  C5 as stated fails. On the no-op way through \<^verbatim>\<open>sync_file\<close> nothing at all is emitted
  when no live dashboard is attached (as during the initial pass), and with the
  dashboard there are two refreshes showing \<^verbatim>\<open>synced\<close> and no notification: never
  exactly one terminal event.
\<close>

theorem noop_emits_no_single_event:
  "fst (sync_file demo_digest 0 (demo_world, plain_monitor [pair_same])) = True \<and>
   events (fst (snd (sync_file demo_digest 0 (demo_world, plain_monitor [pair_same])))) = [] \<and>
   fst (sync_file demo_digest 0 (demo_world, live_monitor [pair_same])) = True \<and>
   events (fst (snd (sync_file demo_digest 0 (demo_world, live_monitor [pair_same])))) =
     [Display [''syncing''], Display [''synced''], Display [''synced'']]"
proof -
  have "file_pairs (live_monitor [pair_same]) = [pair_same]"
    by (simp add: live_monitor_def init_monitor_def)
  from sync_same [OF this] plain_same_once show ?thesis
    by (simp add: noop_events_def display_events_def update_pair_def set_pair_status_def
          live_monitor_def init_monitor_def demo_world_def pair_same_def new_FilePair_def)
qed

section \<open>Preflight and scheduling\<close>

lemma logger_proj [simp]:
  "fsys (fst (logger lv msg s)) = fsys (fst s)"
  "clock (fst (logger lv msg s)) = clock (fst s)"
  "snd (logger lv msg s) = snd s"
  "notifications (events (fst (logger lv msg s))) = notifications (events (fst s))"
  by (cases s; simp add: logger_eq)+

lemma console_print_proj [simp]:
  "fsys (fst (console_print msg s)) = fsys (fst s)"
  "clock (fst (console_print msg s)) = clock (fst s)"
  "snd (console_print msg s) = snd s"
  "notifications (events (fst (console_print msg s))) = notifications (events (fst s))"
  by (cases s; simp add: console_print_eq)+

lemma validate_iff:
  "fst (validate fs p) \<longleftrightarrow> path_exists fs (source p) \<and> is_file fs (source p)"
  by (simp add: validate_def)

lemma validate_loop_fst:
  "fst (validate_loop ps b s) \<longleftrightarrow>
     b \<and> (\<forall>p \<in> set ps. path_exists (fsys (fst s)) (source p) \<and> is_file (fsys (fst s)) (source p))"
proof (induction ps arbitrary: b s)
  case Nil
  then show ?case by simp
next
  case (Cons p ps)
  show ?case
  proof (cases "fst (validate (fsys (fst s)) p)")
    case True
    then show ?thesis using Cons.IH [of b s] validate_iff [of "fsys (fst s)" p]
      by (auto simp: split_beta)
  next
    case False
    then show ?thesis
      using Cons.IH [of False "logger EXCEPTION (snd (validate (fsys (fst s)) p)) s"]
        validate_iff [of "fsys (fst s)" p]
      by (auto simp: split_beta)
  qed
qed






text \<open>And when every source is a regular file the preflight passes.\<close>

lemma preflight_passes_example:
  "fst (validate_all_pairs (demo_world, init_monitor 0 [pair_same, pair_new] 1 True True False))"
  unfolding validate_all_pairs_def validate_loop_fst
  by (simp add: init_monitor_def pair_same_def pair_new_def
        new_FilePair_def demo_world_def path_exists_def is_file_def os_stat_def demo_fs_def)

lemma sleep_time_floor: "1 / 10 \<le> sleep_time interval elapsed"
  by (simp add: sleep_time_def)

lemma sync_file_config:
  assumes "i < length (file_pairs (snd s))"
  shows "check_interval (snd (snd (sync_file H i s))) = check_interval (snd s) \<and>
         length (file_pairs (snd (snd (sync_file H i s)))) = length (file_pairs (snd s))"
proof -
  obtain w m where s: "s = (w, m)" by (cases s)
  from assms have "i < length (file_pairs m)" by (simp add: s)
  then show ?thesis unfolding s
    by (cases rule: sync_file_cases [where H = H and w = w])
       (simp_all add: failed_monitor_def copied_monitor_def)
qed

lemma sync_fold_config:
  assumes "\<forall>i \<in> set js. i < length (file_pairs (snd s))"
      and "\<And>s'. snd (pause s') = snd s'"
  shows "check_interval (snd (fold (\<lambda>i s'. pause (snd (sync_file H i s'))) js s)) =
           check_interval (snd s) \<and>
         length (file_pairs (snd (fold (\<lambda>i s'. pause (snd (sync_file H i s'))) js s))) =
           length (file_pairs (snd s))"
  using assms(1)
proof (induction js arbitrary: s)
  case Nil
  then show ?case by simp
next
  case (Cons j js)
  let ?s1 = "pause (snd (sync_file H j s))"
  from Cons.prems have j: "j < length (file_pairs (snd s))" by simp
  from sync_file_config [OF j, of H] assms(2) [of "snd (sync_file H j s)"]
  have s1: "check_interval (snd ?s1) = check_interval (snd s)"
    "length (file_pairs (snd ?s1)) = length (file_pairs (snd s))" by simp_all
  with Cons.prems have "\<forall>i \<in> set js. i < length (file_pairs (snd ?s1))" by simp
  from Cons.IH [OF this] s1 show ?case by simp
qed

lemma display_status_live_config:
  "check_interval (snd (display_status_live s)) = check_interval (snd s)"
  by (cases s) (simp add: display_status_live_eq)

lemma tick_work_config:
  "check_interval (snd (tick_work env H s)) = check_interval (snd s)"
proof -
  have "snd (time_sleep env (1 / 10) s') = snd s'" for s'
    by (simp add: time_sleep_def)
  from sync_fold_config [of "[0..<length (file_pairs (snd s))]" s "time_sleep env (1 / 10)" H, OF _ this]
  show ?thesis
    by (simp add: tick_work_def sync_all_def display_status_live_config)
qed

text \<open>
  C9. The sleep at the end of a pass is the check interval minus the time the pass
  took, and the floor of 0.1 seconds when that difference is smaller: never less than
  0.1, exactly 0.3 for an interval of 1 and a pass of 0.7, exactly the floor when the
  pass took longer than the interval. \<^verbatim>\<open>_monitor_loop\<close> sleeps for this time, computed
  from the configured interval and the clock readings around the pass. (Times are
  exact reals here; the Python floats round.)
\<close>

theorem sleep_compensation:
  "sleep_time interval elapsed =
     (if interval - elapsed < 1 / 10 then 1 / 10 else interval - elapsed) \<and>
   1 / 10 \<le> sleep_time interval elapsed \<and>
   sleep_time 1 (7 / 10) = 3 / 10 \<and>
   (interval < elapsed \<longrightarrow> sleep_time interval elapsed = 1 / 10) \<and>
   monitor_tick env H s =
     time_sleep env
       (sleep_time (check_interval (snd s)) (clock (fst (tick_work env H s)) - clock (fst s)))
       (tick_work env H s)"
  by (auto simp: sleep_time_def monitor_tick_def Let_def max_def tick_work_config)

text \<open>The theorem at a pass of 2 seconds (overrun) and of half a second.\<close>

theorem sleep_compensation_witness:
  "(1::real) < 2 \<and> sleep_time 1 2 = 1 / 10 \<and> sleep_time 1 (7 / 10) = 3 / 10 \<and>
   sleep_time 1 (1 / 2) = 1 / 2"
  using sleep_compensation [of 1 2] sleep_compensation [of 1 "1 / 2"] by simp

section \<open>The copy\<close>

lemma prefix_butlast_self: "prefix p (butlast p) \<Longrightarrow> p = []"
  by (cases p rule: rev_cases) (auto dest: prefix_length_le)

lemma mkdir_keeps_file:
  assumes src: "os_stat fs src = Inr (File b md bad)"
      and nd: "\<not> is_dir fs tgt"
      and mk: "mkdir True True fs (butlast tgt) = (r5, f5)"
  shows "os_stat f5 src = Inr (File b md bad)"
    and "\<not> is_dir f5 tgt"
    and "r5 = None \<Longrightarrow> is_dir f5 (butlast tgt) \<and> tgt \<noteq> []"
proof -
  note post = mkdir_post [OF mk]
  from post src show "os_stat f5 src = Inr (File b md bad)" by blast
  show nd5: "\<not> is_dir f5 tgt"
  proof
    assume "is_dir f5 tgt"
    then obtain w where "os_stat f5 tgt = Inr (Dir w)"
      by (auto simp: is_dir_def split: sum.splits node.splits)
    with post have "os_stat fs tgt = Inr (Dir w) \<or> (prefix tgt (butlast tgt) \<and> tgt \<noteq> [])"
      by blast
    with nd show False by (auto simp: is_dir_def dest: prefix_butlast_self)
  qed
  assume "r5 = None"
  with post have d: "is_dir f5 (butlast tgt)" by blast
  with nd5 have "tgt \<noteq> []" by auto
  with d show "is_dir f5 (butlast tgt) \<and> tgt \<noteq> []" by simp
qed

lemma copy2_onto_file:
  assumes src: "os_stat fs src = Inr (File b md False)"
      and nd: "\<not> is_dir fs tgt"
      and parent: "is_dir fs (butlast tgt)" "tgt \<noteq> []"
      and cp: "copy2 t fs src tgt = (None, f6)"
  shows "os_stat f6 tgt = Inr (File b md False)"
    and "os_stat f6 src = Inr (File b md False)"
    and "is_dir f6 (butlast tgt)"
    and "readable md"
proof -
  from copy2_result [OF src nd cp] have
    rd: "readable md" and ne: "src \<noteq> tgt" and
    ok: "\<forall>q. strict_prefix q tgt \<longrightarrow> (\<exists>w. fs q = Some (Dir w))" and
    f6: "f6 = place fs tgt (File b md False)" by auto
  show "readable md" by (rule rd)
  show "os_stat f6 tgt = Inr (File b md False)"
    unfolding f6 os_stat_place [OF ok] by simp
  have "\<not> strict_prefix tgt src"
    using os_stat_strict_prefix_dir [OF src, of tgt] nd by (auto simp: is_dir_def)
  with src ne show "os_stat f6 src = Inr (File b md False)"
    unfolding f6 os_stat_place [OF ok] by simp
  from parent(1) obtain w where p: "os_stat fs (butlast tgt) = Inr (Dir w)"
    by (auto simp: is_dir_def split: sum.splits node.splits)
  have "butlast tgt \<noteq> tgt" using parent(2) by (metis prefix_butlast_self prefix_order.order_refl)
  moreover have "\<not> strict_prefix tgt (butlast tgt)"
    using parent(2) by (auto simp: strict_prefix_def dest: prefix_butlast_self)
  ultimately have "os_stat f6 (butlast tgt) = Inr (Dir w)"
    using p unfolding f6 os_stat_place [OF ok] by simp
  then show "is_dir f6 (butlast tgt)" by (simp add: is_dir_def)
qed



text \<open>
  C3 (as amended). The source hashes to \<open>h\<close>, the target is absent or hashes to
  something else, the target is not an existing directory, and neither \<^verbatim>\<open>mkdir\<close> nor
  \<^verbatim>\<open>copy2\<close> raises (so \<^verbatim>\<open>sync_file\<close> returns True). Then afterwards the target's
  parent is a directory, the target is a regular file with the bytes and the metadata
  of the source, the source is as before, the pair has \<^verbatim>\<open>last_hash\<close> \<open>= h\<close>,
  \<^verbatim>\<open>last_sync\<close> = the time of the call and status \<^verbatim>\<open>"synced"\<close>, the run's sync count
  is one higher, and target and source both hash to \<open>h\<close>. The new \<^verbatim>\<open>last_sync\<close> is
  not earlier than the previous one provided the clock has not been set back behind it.
\<close>

theorem copy_sync:
  assumes "i < length (file_pairs m)"
      and "calculate_file_hash H (fsys w) (source (file_pairs m ! i)) = Some h"
      and "\<not> (path_exists (fsys w) (target (file_pairs m ! i)) \<and>
              calculate_file_hash H (fsys w) (target (file_pairs m ! i)) = Some h)"
      and "\<not> is_dir (fsys w) (target (file_pairs m ! i))"
      and "sync_file H i (w, m) = (True, w', m')"
      and "\<forall>t. last_sync (file_pairs m ! i) = Some t \<longrightarrow> t \<le> clock w"
  shows "is_dir (fsys w') (butlast (target (file_pairs m ! i))) \<and>
         (\<exists>b md. os_stat (fsys w) (source (file_pairs m ! i)) = Inr (File b md False) \<and>
                 os_stat (fsys w') (source (file_pairs m ! i)) = Inr (File b md False) \<and>
                 os_stat (fsys w') (target (file_pairs m ! i)) = Inr (File b md False)) \<and>
         file_pairs m' = (file_pairs m)[i := (file_pairs m ! i)
             \<lparr>last_hash := Some h, last_sync := Some (clock w), status := ''synced''\<rparr>] \<and>
         (\<forall>t. last_sync (file_pairs m ! i) = Some t \<longrightarrow>
              (\<exists>t'. last_sync (file_pairs m' ! i) = Some t' \<and> t \<le> t')) \<and>
         st_sync_count (stats m') = st_sync_count (stats m) + 1 \<and>
         st_last_sync (stats m') = Some (clock w) \<and>
         calculate_file_hash H (fsys w') (target (file_pairs m ! i)) = Some h \<and>
         calculate_file_hash H (fsys w') (source (file_pairs m ! i)) = Some h \<and>
         last_hash (file_pairs m' ! i) = Some h"
  using assms(1)
proof (cases rule: sync_file_cases [where H = H and w = w])
  case hash_fail
  with assms(2) show ?thesis by simp
next
  case (noop h')
  with assms(2,3) show ?thesis by simp
next
  case (mkdir_fail h' e f5)
  with assms(5) show ?thesis by simp
next
  case (copy_fail h' e f5 f6)
  with assms(5) show ?thesis by simp
next
  case (copy_ok h' f5 f6)
  let ?src = "source (file_pairs m ! i)" and ?tgt = "target (file_pairs m ! i)"
  from copy_ok(1) assms(2) have hh: "h' = h" by simp
  from copy_ok(5) assms(5) have w': "fsys w' = f6" and m': "m' = copied_monitor w i h m"
    by (simp_all add: hh)
  from assms(2) obtain b md where
    src: "os_stat (fsys w) ?src = Inr (File b md False)" and h: "h = H b"
    by (auto simp: calculate_file_hash_Some_iff)
  note k = mkdir_keeps_file [OF src assms(4) copy_ok(3)]
  from k(3) have parent: "is_dir f5 (butlast ?tgt)" "?tgt \<noteq> []" by simp_all
  note c = copy2_onto_file [OF k(1) k(2) parent copy_ok(4)]
  have hashes: "calculate_file_hash H f6 ?tgt = Some h" "calculate_file_hash H f6 ?src = Some h"
    using c by (auto simp: calculate_file_hash_Some_iff h)
  have pairs: "file_pairs m' = (file_pairs m)[i := (file_pairs m ! i)
             \<lparr>last_hash := Some h, last_sync := Some (clock w), status := ''synced''\<rparr>]"
    by (simp add: m' rec_pair_def)
  show ?thesis
    using src c hashes assms(1,6) unfolding w' pairs
    by (auto simp: m')
qed


lemma demo_new_mkdir:
  "mkdir True True demo_fs [''out'', ''new''] = (None, place demo_fs [''out'', ''new''] (Dir True))"
  by (simp add: mkdir.simps os_mkdir_def os_stat_def demo_fs_def)

lemma demo_new_facts:
  "\<not> path_exists demo_fs [''out'', ''new'', ''a.txt'']"
  "\<not> is_dir demo_fs [''out'', ''new'', ''a.txt'']"
  by (simp_all add: path_exists_def is_dir_def os_stat_def demo_fs_def)

lemma demo_new_copy2:
  "fst (copy2 5 (place demo_fs [''out'', ''new''] (Dir True)) [''src'', ''a.txt'']
          [''out'', ''new'', ''a.txt'']) = None"
  by (simp add: copy2_def copyfile_def is_dir_def open_rb_def open_wb_def path_exists_def
        os_stat_def place_def demo_fs_def demo_meta_def Let_def)

lemma sync_resync:
  "sync_file demo_digest 0 (demo_world, plain_monitor [pair_resync]) =
     (True,
      demo_world\<lparr>fsys := snd (copy2 5 (place demo_fs [''out'', ''new''] (Dir True))
                        [''src'', ''a.txt''] [''out'', ''new'', ''a.txt'']),
         events := events demo_world
           @ attempt_events demo_digest demo_world 0 (plain_monitor [pair_resync])
           @ success_events (plain_monitor [pair_resync]) 0\<rparr>,
      copied_monitor demo_world 0 ''v1'' (plain_monitor [pair_resync]))"
proof -
  let ?m = "plain_monitor [pair_resync]"
  let ?f5 = "place demo_fs [''out'', ''new''] (Dir True)"
  have fp: "file_pairs ?m = [pair_resync]"
    by (simp add: plain_monitor_def init_monitor_def)
  have st: "source pair_resync = [''src'', ''a.txt'']" "target pair_resync = [''out'', ''new'', ''a.txt'']"
    by (simp_all add: pair_resync_def pair_new_def new_FilePair_def)
  have i: "0 < length (file_pairs ?m)" by (simp add: fp)
  have hs: "calculate_file_hash demo_digest (fsys demo_world) (source (file_pairs ?m ! 0)) = Some ''v1''"
    unfolding fp by (simp add: st demo_world_def demo_hash_a)
  have nt: "\<not> (path_exists (fsys demo_world) (target (file_pairs ?m ! 0)) \<and>
     calculate_file_hash demo_digest (fsys demo_world) (target (file_pairs ?m ! 0)) = Some ''v1'')"
    unfolding fp by (simp add: st demo_world_def demo_new_facts)
  have mk: "mkdir True True (fsys demo_world) (butlast (target (file_pairs ?m ! 0))) = (None, ?f5)"
    unfolding fp by (simp add: st demo_world_def demo_new_mkdir)
  have cp: "copy2 (clock demo_world) ?f5 (source (file_pairs ?m ! 0)) (target (file_pairs ?m ! 0)) =
      (None, snd (copy2 5 ?f5 [''src'', ''a.txt''] [''out'', ''new'', ''a.txt'']))"
    unfolding fp using demo_new_copy2
    by (simp add: st demo_world_def prod_eq_iff)
  from sync_file_copy_ok [OF i hs nt mk cp] show ?thesis .
qed

text \<open>
  The theorem at a pair copied before at time 3 whose target and target directory are
  gone: at time 5 the directory is created and the file copied.
\<close>

theorem copy_sync_witness:
  "0 < length (file_pairs (plain_monitor [pair_resync])) \<and>
   calculate_file_hash demo_digest (fsys demo_world)
     (source (file_pairs (plain_monitor [pair_resync]) ! 0)) = Some ''v1'' \<and>
   \<not> path_exists (fsys demo_world) (target (file_pairs (plain_monitor [pair_resync]) ! 0)) \<and>
   \<not> is_dir (fsys demo_world) (target (file_pairs (plain_monitor [pair_resync]) ! 0)) \<and>
   last_sync (file_pairs (plain_monitor [pair_resync]) ! 0) = Some 3 \<and> 3 \<le> clock demo_world \<and>
   fst (sync_file demo_digest 0 (demo_world, plain_monitor [pair_resync])) = True \<and>
   is_dir (fsys (fst (snd (sync_file demo_digest 0 (demo_world, plain_monitor [pair_resync])))))
     [''out'', ''new''] \<and>
   calculate_file_hash demo_digest
     (fsys (fst (snd (sync_file demo_digest 0 (demo_world, plain_monitor [pair_resync])))))
     [''out'', ''new'', ''a.txt''] = Some ''v1'' \<and>
   file_pairs (snd (snd (sync_file demo_digest 0 (demo_world, plain_monitor [pair_resync])))) =
     [pair_resync\<lparr>last_hash := Some ''v1'', last_sync := Some 5\<rparr>] \<and>
   st_sync_count (stats (snd (snd (sync_file demo_digest 0 (demo_world, plain_monitor [pair_resync]))))) = 1"
proof -
  let ?m = "plain_monitor [pair_resync]"
  let ?r = "sync_file demo_digest 0 (demo_world, ?m)"
  have fp: "file_pairs ?m = [pair_resync]" "st_sync_count (stats ?m) = 0"
    by (simp_all add: plain_monitor_def init_monitor_def)
  have st: "source pair_resync = [''src'', ''a.txt'']" "target pair_resync = [''out'', ''new'', ''a.txt'']"
    "last_sync pair_resync = Some 3"
    "pair_resync\<lparr>last_hash := Some ''v1'', last_sync := Some 5, status := ''synced''\<rparr> =
       pair_resync\<lparr>last_hash := Some ''v1'', last_sync := Some 5\<rparr>"
    by (simp_all add: pair_resync_def pair_new_def new_FilePair_def)
  have h1: "0 < length (file_pairs ?m)" by (simp add: fp)
  have h2: "calculate_file_hash demo_digest (fsys demo_world) (source (file_pairs ?m ! 0)) = Some ''v1''"
    unfolding fp by (simp add: st demo_world_def demo_hash_a)
  have h3: "\<not> (path_exists (fsys demo_world) (target (file_pairs ?m ! 0)) \<and>
     calculate_file_hash demo_digest (fsys demo_world) (target (file_pairs ?m ! 0)) = Some ''v1'')"
    unfolding fp by (simp add: st demo_world_def demo_new_facts)
  have h4: "\<not> is_dir (fsys demo_world) (target (file_pairs ?m ! 0))"
    unfolding fp by (simp add: st demo_world_def demo_new_facts)
  have h5: "?r = (True, fst (snd ?r), snd (snd ?r))" by (simp add: sync_resync)
  have h6: "\<forall>t. last_sync (file_pairs ?m ! 0) = Some t \<longrightarrow> t \<le> clock demo_world"
    unfolding fp by (simp add: st demo_world_def)
  have c0: "fst ?r = True" by (simp add: sync_resync)
  have c1: "clock demo_world = 5" by (simp add: demo_world_def)
  note c = c0 c1
  have h3': "\<not> path_exists (fsys demo_world) (target (file_pairs ?m ! 0))"
    unfolding fp by (simp add: st demo_world_def demo_new_facts)
  from copy_sync [OF h1 h2 h3 h4 h5 h6] h1 h2 h3' h4 c show ?thesis
    unfolding fp by (simp add: st)
qed


lemma demo_dir_facts:
  "path_exists demo_fs [''out'', ''dir'']"
  "calculate_file_hash demo_digest demo_fs [''out'', ''dir''] = None"
  "mkdir True True demo_fs [''out''] = (None, demo_fs)"
  by (simp_all add: path_exists_def calculate_file_hash_None_iff mkdir.simps os_mkdir_def
        is_dir_def os_stat_def demo_fs_def)

lemma demo_dir_copy2:
  "fst (copy2 5 demo_fs [''src'', ''a.txt''] [''out'', ''dir'']) = None"
  "calculate_file_hash demo_digest (snd (copy2 5 demo_fs [''src'', ''a.txt''] [''out'', ''dir'']))
     [''out'', ''dir''] = None"
  "calculate_file_hash demo_digest (snd (copy2 5 demo_fs [''src'', ''a.txt''] [''out'', ''dir'']))
     [''out'', ''dir'', ''a.txt''] = Some ''v1''"
  by (simp_all add: copy2_def copyfile_def copystat_def write_all_def basename_def is_dir_def
        open_rb_def open_wb_def path_exists_def calculate_file_hash_def file_digest_def
        feed_chunks_eq os_stat_def place_def demo_fs_def demo_meta_def demo_digest_def Let_def)

lemma sync_into_dir:
  "sync_file demo_digest 0 (demo_world, plain_monitor [pair_into_dir]) =
     (True,
      demo_world\<lparr>fsys := snd (copy2 5 demo_fs [''src'', ''a.txt''] [''out'', ''dir'']),
         events := events demo_world
           @ attempt_events demo_digest demo_world 0 (plain_monitor [pair_into_dir])
           @ success_events (plain_monitor [pair_into_dir]) 0\<rparr>,
      copied_monitor demo_world 0 ''v1'' (plain_monitor [pair_into_dir]))"
proof -
  let ?m = "plain_monitor [pair_into_dir]"
  have fp: "file_pairs ?m = [pair_into_dir]"
    by (simp add: plain_monitor_def init_monitor_def)
  have st: "source pair_into_dir = [''src'', ''a.txt'']" "target pair_into_dir = [''out'', ''dir'']"
    by (simp_all add: pair_into_dir_def new_FilePair_def)
  have i: "0 < length (file_pairs ?m)" by (simp add: fp)
  have hs: "calculate_file_hash demo_digest (fsys demo_world) (source (file_pairs ?m ! 0)) = Some ''v1''"
    unfolding fp by (simp add: st demo_world_def demo_hash_a)
  have nt: "\<not> (path_exists (fsys demo_world) (target (file_pairs ?m ! 0)) \<and>
     calculate_file_hash demo_digest (fsys demo_world) (target (file_pairs ?m ! 0)) = Some ''v1'')"
    unfolding fp by (simp add: st demo_world_def demo_dir_facts)
  have mk: "mkdir True True (fsys demo_world) (butlast (target (file_pairs ?m ! 0))) = (None, demo_fs)"
    unfolding fp by (simp add: st demo_world_def demo_dir_facts)
  have cp: "copy2 (clock demo_world) demo_fs (source (file_pairs ?m ! 0)) (target (file_pairs ?m ! 0)) =
      (None, snd (copy2 5 demo_fs [''src'', ''a.txt''] [''out'', ''dir'']))"
    unfolding fp using demo_dir_copy2(1)
    by (simp add: st demo_world_def prod_eq_iff)
  from sync_file_copy_ok [OF i hs nt mk cp] show ?thesis .
qed

text \<open>
  C3 as stated fails when the target is an existing directory. Its hash is undefined,
  so it differs from the source's; \<^verbatim>\<open>shutil.copy2\<close> then puts the file \<^emph>\<open>into\<close> the
  directory. \<^verbatim>\<open>sync_file\<close> returns True, records the source's hash and counts a sync,
  but the target still has no hash: it is not equal to \<^verbatim>\<open>last_hash\<close>.
\<close>

theorem copy_into_directory_target:
  "calculate_file_hash demo_digest (fsys demo_world) (source pair_into_dir) = Some ''v1'' \<and>
   calculate_file_hash demo_digest (fsys demo_world) (target pair_into_dir) = None \<and>
   fst (sync_file demo_digest 0 (demo_world, plain_monitor [pair_into_dir])) = True \<and>
   last_hash (file_pairs (snd (snd (sync_file demo_digest 0
       (demo_world, plain_monitor [pair_into_dir])))) ! 0) = Some ''v1'' \<and>
   st_sync_count (stats (snd (snd (sync_file demo_digest 0
       (demo_world, plain_monitor [pair_into_dir]))))) = 1 \<and>
   calculate_file_hash demo_digest
     (fsys (fst (snd (sync_file demo_digest 0 (demo_world, plain_monitor [pair_into_dir])))))
     (target pair_into_dir) = None \<and>
   calculate_file_hash demo_digest
     (fsys (fst (snd (sync_file demo_digest 0 (demo_world, plain_monitor [pair_into_dir])))))
     [''out'', ''dir'', ''a.txt''] = Some ''v1''"
proof -
  have st: "source pair_into_dir = [''src'', ''a.txt'']" "target pair_into_dir = [''out'', ''dir'']"
    by (simp_all add: pair_into_dir_def new_FilePair_def)
  have "fsys demo_world = demo_fs" by (simp add: demo_world_def)
  moreover have "file_pairs (plain_monitor [pair_into_dir]) = [pair_into_dir]"
    "st_sync_count (stats (plain_monitor [pair_into_dir])) = 0"
    by (simp_all add: plain_monitor_def init_monitor_def)
  ultimately show ?thesis
    by (simp add: sync_into_dir st demo_hash_a demo_dir_facts demo_dir_copy2 rec_pair_def)
qed

section \<open>What \<^verbatim>\<open>synced\<close> means\<close>










end
